theory Spec2Isabelle
  imports Main "HOL-Library.Word"
begin

section \<open>Python values shared by the embedded functions\<close>

text \<open>
  The exceptions the embedded code can raise. A function that may raise returns
  \<open>error + 'a\<close>, with \<open>Inl\<close> carrying the exception.
\<close>

datatype error = ValueError | IndexError | NotImplementedError | OverflowError

text \<open>
  Python's slice \<open>t[start:stop]\<close> with step 1. An omitted bound (\<open>None\<close>) is the
  start or the end of the sequence; a negative bound counts from the end; every bound is
  clamped to the sequence, so a slice never raises.
\<close>

definition slice_bound :: "nat \<Rightarrow> int \<Rightarrow> nat" where
  "slice_bound len i = (if i < 0 then nat (max 0 (int len + i)) else min len (nat i))"

definition py_slice :: "'a list \<Rightarrow> int option \<Rightarrow> int option \<Rightarrow> 'a list" where
  "py_slice t start stop =
     (let lo = (case start of None \<Rightarrow> 0 | Some i \<Rightarrow> slice_bound (length t) i);
          hi = (case stop of None \<Rightarrow> length t | Some j \<Rightarrow> slice_bound (length t) j)
      in drop lo (take hi t))"

text \<open>
  Python's subscript \<open>xs[i]\<close> on a sequence: a negative index counts from the end, an
  index outside \<open>-len .. len-1\<close> raises IndexError.
\<close>

definition py_pos :: "nat \<Rightarrow> int \<Rightarrow> nat" where
  "py_pos len i = nat (if i < 0 then int len + i else i)"

definition py_get :: "'a list \<Rightarrow> int \<Rightarrow> error + 'a" where
  "py_get xs i =
     (if - int (length xs) \<le> i \<and> i < int (length xs)
      then Inr (xs ! py_pos (length xs) i) else Inl IndexError)"

section \<open>utils.py: update_sequence\<close>

text \<open>
  \<^verbatim>\<open>
  def update_sequence(s, n, x):
      t = tuple(s)
      if -len(t) <= n < len(t):
          return t[0:n] + (x,) + t[n+1:0 if n ==-1 else None]
      else:
          raise IndexError("sequence index out of range")
  \<close>
\<close>

definition update_sequence :: "'a list \<Rightarrow> int \<Rightarrow> 'a \<Rightarrow> error + 'a list" where
  "update_sequence s n x =
     (let t = s in
      if - int (length t) \<le> n \<and> n < int (length t)
      then Inr (py_slice t (Some 0) (Some n) @ [x]
                @ py_slice t (Some (n + 1)) (if n = -1 then Some 0 else None))
      else Inl IndexError)"

section \<open>utils.py: with_retries\<close>

text \<open>
  \<^verbatim>\<open>
  def with_retries(fn, max_retries=None, max_duration=None, interval=0.5, exceptions=Exception):
      @wraps(fn)
      def wrapper(*args, **kwargs):
          if max_duration is None:
              end_time = datetime.datetime.max
          else:
              end_time = datetime.datetime.now() + datetime.timedelta(seconds=max_duration)
          for i in itertools.count() if max_retries is None else range(max_retries):
              try:
                  return fn(*args, **kwargs)
              except exceptions:
                  if i + 1 == max_retries: raise
                  elif datetime.datetime.now() > datetime.datetime.max: raise
                  else: sleep(interval)
      return wrapper
  \<close>

  A \<open>datetime\<close> is a point in time between \<open>datetime.min\<close> and \<open>datetime.max\<close>, in
  microseconds since \<open>datetime.min\<close> (0001-01-01 00:00:00). \<open>datetime.max\<close> is
  9999-12-31 23:59:59.999999, the last microsecond of day 3652059.
\<close>

typedef datetime = "{t :: int. 0 \<le> t \<and> t \<le> 315537897599999999}"
  by (intro exI [of _ 0]) simp

definition datetime_max :: datetime where
  "datetime_max = Abs_datetime 315537897599999999"

definition datetime_gt :: "datetime \<Rightarrow> datetime \<Rightarrow> bool" where
  "datetime_gt a b = (Rep_datetime b < Rep_datetime a)"

text \<open>
  \<open>datetime + timedelta\<close>, the duration in microseconds: OverflowError when the sum is
  not a datetime.
\<close>

definition datetime_add :: "datetime \<Rightarrow> int \<Rightarrow> error + datetime" where
  "datetime_add d us =
     (let t = Rep_datetime d + us
      in if 0 \<le> t \<and> t \<le> 315537897599999999 then Inr (Abs_datetime t) else Inl OverflowError)"

text \<open>
  What one call of the wrapper does: it returns the value \<open>fn\<close> returned, returns \<open>None\<close>
  (the \<open>for\<close> loop ended and the body of \<open>wrapper\<close> fell off its end), lets an exception of
  \<open>fn\<close> through, or raises an exception of its own.
\<close>

datatype ('e, 'a) outcome = Returned 'a | ReturnedNone | Raised 'e | RaisedError error

text \<open>
  The world \<open>'w\<close> is everything \<open>fn\<close>, the clock and \<open>sleep\<close> read and change. One call
  \<open>fn(*args, **kwargs)\<close> is \<open>fn :: 'w \<Rightarrow> ('e + 'a) \<times> 'w\<close>: it raises \<open>Inl e\<close> or returns
  \<open>Inr v\<close>, and leaves a new world. \<open>handled e\<close> says that \<open>e\<close> is an instance of
  \<open>exceptions\<close>; \<open>now w\<close> is what \<open>datetime.datetime.now()\<close> reads in \<open>w\<close>; \<open>sleep interval\<close>
  is \<open>time.sleep(interval)\<close>. Durations are in microseconds.

  The \<open>for\<close> loop, entered with loop variable \<open>i\<close> after \<open>calls\<close> calls of \<open>fn\<close>. With
  \<open>max_retries = None\<close> the iterator \<open>itertools.count()\<close> never ends, so the loop takes
  fuel: \<open>None\<close> is a run still going when the fuel is spent. The result carries the number
  of calls of \<open>fn\<close> the wrapper made.
\<close>

fun retry_loop ::
  "nat \<Rightarrow> ('w \<Rightarrow> ('e + 'a) \<times> 'w) \<Rightarrow> int option \<Rightarrow> int \<Rightarrow> ('e \<Rightarrow> bool) \<Rightarrow> ('w \<Rightarrow> datetime)
   \<Rightarrow> (int \<Rightarrow> 'w \<Rightarrow> 'w) \<Rightarrow> int \<Rightarrow> 'w \<Rightarrow> nat \<Rightarrow> (('e, 'a) outcome \<times> 'w \<times> nat) option" where
  "retry_loop 0 fn max_retries interval handled now sleep i w calls = None"
| "retry_loop (Suc fuel) fn max_retries interval handled now sleep i w calls =
     (if (case max_retries of None \<Rightarrow> False | Some m \<Rightarrow> \<not> i < m)
      then Some (ReturnedNone, w, calls)
      else case fn w of
        (Inr v, w') \<Rightarrow> Some (Returned v, w', calls + 1)
      | (Inl e, w') \<Rightarrow>
          if \<not> handled e then Some (Raised e, w', calls + 1)
          else if Some (i + 1) = max_retries then Some (Raised e, w', calls + 1)
          else if datetime_gt (now w') datetime_max then Some (Raised e, w', calls + 1)
          else retry_loop fuel fn max_retries interval handled now sleep (i + 1)
                 (sleep interval w') (calls + 1))"

definition with_retries ::
  "nat \<Rightarrow> ('w \<Rightarrow> ('e + 'a) \<times> 'w) \<Rightarrow> int option \<Rightarrow> int option \<Rightarrow> int \<Rightarrow> ('e \<Rightarrow> bool)
   \<Rightarrow> ('w \<Rightarrow> datetime) \<Rightarrow> (int \<Rightarrow> 'w \<Rightarrow> 'w) \<Rightarrow> 'w \<Rightarrow> (('e, 'a) outcome \<times> 'w \<times> nat) option" where
  "with_retries fuel fn max_retries max_duration interval handled now sleep w =
     (case (case max_duration of
              None \<Rightarrow> Inr datetime_max
            | Some d \<Rightarrow> datetime_add (now w) d) of
        Inl err \<Rightarrow> Some (RaisedError err, w, 0)
      | Inr end_time \<Rightarrow>
          retry_loop fuel fn max_retries interval handled now sleep 0 w 0)"

text \<open>
  \<open>always_raises fn handled\<close>: every call of \<open>fn\<close> raises an exception that
  \<open>exceptions\<close> covers. \<open>after_failure\<close> is the world in which the next attempt starts
  after a failed one: the world the failed call left, slept in for \<open>interval\<close>.
\<close>

definition always_raises :: "('w \<Rightarrow> ('e + 'a) \<times> 'w) \<Rightarrow> ('e \<Rightarrow> bool) \<Rightarrow> bool" where
  "always_raises fn handled = (\<forall>w. case fn w of (Inl e, w') \<Rightarrow> handled e | (Inr v, w') \<Rightarrow> False)"

definition after_failure :: "('w \<Rightarrow> ('e + 'a) \<times> 'w) \<Rightarrow> (int \<Rightarrow> 'w \<Rightarrow> 'w) \<Rightarrow> int \<Rightarrow> 'w \<Rightarrow> 'w" where
  "after_failure fn sleep interval w = sleep interval (snd (fn w))"

text \<open>
  A concrete world to run the wrapper in: a clock (microseconds since \<open>datetime.min\<close>)
  that \<open>sleep\<close> advances, and the number of attempts made so far. \<open>failing_fn\<close> raises at
  every call; \<open>flaky_fn\<close> raises at its first two calls and returns 42 from the third on.
\<close>

record test_world =
  clock :: int
  attempts :: nat

definition test_now :: "test_world \<Rightarrow> datetime" where
  "test_now w = Abs_datetime (clock w)"

definition test_sleep :: "int \<Rightarrow> test_world \<Rightarrow> test_world" where
  "test_sleep interval w = w\<lparr>clock := clock w + interval\<rparr>"

definition failing_fn :: "test_world \<Rightarrow> (unit + nat) \<times> test_world" where
  "failing_fn w = (Inl (), w\<lparr>attempts := Suc (attempts w)\<rparr>)"

definition flaky_fn :: "test_world \<Rightarrow> (unit + nat) \<times> test_world" where
  "flaky_fn w = (if attempts w < 2 then Inl () else Inr 42, w\<lparr>attempts := Suc (attempts w)\<rparr>)"

section \<open>utils.py: number_of_args, all_keyword_args, ignoring_extra_args\<close>

text \<open>
  \<^verbatim>\<open>
  def number_of_args(fn):
      try:
          if hasattr(fn, '__wrapped__'):
              return number_of_args(fn.__wrapped__)
          if any(p.kind == p.VAR_POSITIONAL for p in signature(fn).parameters.values()):
              return None
          else:
              return sum(p.kind in (p.POSITIONAL_ONLY, p.POSITIONAL_OR_KEYWORD)
                         for p in signature(fn).parameters.values())
      except ValueError:
          UNARY_OPS = [len, op.not_, ...]; BINARY_OPS = [op.lt, ...]; TERNARY_OPS = [op.setitem]
          if fn in UNARY_OPS: return 1
          elif fn in BINARY_OPS: return 2
          elif fn in TERNARY_OPS: return 3
          else: raise NotImplementedError(...)

  def all_keyword_args(fn):
      try:
          if hasattr(fn, '__wrapped__'):
              return all_keyword_args(fn.__wrapped__)
          elif any(p.kind == p.VAR_KEYWORD for  p in signature(fn).parameters.values()):
              return None
          else:
              return [p.name for p in signature(fn).parameters.values()
                      if p.kind in (p.KEYWORD_ONLY, p.POSITIONAL_OR_KEYWORD)]
      except ValueError:
          BUILTINS = { }
          return BUILTINS.get(fn, [])

  def ignoring_extra_args(fn):
      n = number_of_args(fn)
      kwa = all_keyword_args(fn)
      @wraps(fn)
      def wrapper(*args, **kwargs):
          return fn(*args[0:n], **keyfilter(lambda k: kwa is None or k in kwa, kwargs))
      return wrapper
  \<close>

  What the two inspecting functions read of a callable: a decorated function carries the
  function it wraps (\<open>__wrapped__\<close>); a Python function has a signature, the list of its
  parameters with their kinds; for a built-in operator \<open>signature\<close> raises ValueError, and
  the operator is known by its name.
\<close>

datatype kind = POSITIONAL_ONLY | POSITIONAL_OR_KEYWORD | VAR_POSITIONAL | KEYWORD_ONLY | VAR_KEYWORD

datatype parameter = Parameter (pname: string) (kind: kind)

datatype callable = Function "parameter list" | Wrapper callable | Builtin string

definition UNARY_OPS :: "string list" where
  "UNARY_OPS = [''len'', ''not_'', ''truth'', ''abs'', ''index'', ''inv'', ''invert'', ''neg'',
     ''pos'']"

definition BINARY_OPS :: "string list" where
  "BINARY_OPS = [''lt'', ''le'', ''gt'', ''ge'', ''eq'', ''ne'', ''is_'', ''is_not'', ''add'',
     ''and_'', ''floordiv'', ''lshift'', ''mod'', ''mul'', ''or_'', ''pow'', ''rshift'', ''sub'',
     ''truediv'', ''xor'', ''concat'', ''contains'', ''countOf'', ''delitem'', ''getitem'',
     ''indexOf'']"

definition TERNARY_OPS :: "string list" where
  "TERNARY_OPS = [''setitem'']"

fun number_of_args :: "callable \<Rightarrow> error + nat option" where
  "number_of_args (Wrapper fn) = number_of_args fn"
| "number_of_args (Function parameters) =
     (if list_ex (\<lambda>p. kind p = VAR_POSITIONAL) parameters then Inr None
      else Inr (Some (length (filter
             (\<lambda>p. kind p \<in> set [POSITIONAL_ONLY, POSITIONAL_OR_KEYWORD]) parameters))))"
| "number_of_args (Builtin fn) =
     (if fn \<in> set UNARY_OPS then Inr (Some 1)
      else if fn \<in> set BINARY_OPS then Inr (Some 2)
      else if fn \<in> set TERNARY_OPS then Inr (Some 3)
      else Inl NotImplementedError)"

fun all_keyword_args :: "callable \<Rightarrow> string list option" where
  "all_keyword_args (Wrapper fn) = all_keyword_args fn"
| "all_keyword_args (Function parameters) =
     (if list_ex (\<lambda>p. kind p = VAR_KEYWORD) parameters then None
      else Some (map pname (filter
             (\<lambda>p. kind p \<in> set [KEYWORD_ONLY, POSITIONAL_OR_KEYWORD]) parameters)))"
| "all_keyword_args (Builtin fn) = Some []"

text \<open>
  \<open>toolz.keyfilter\<close>: the items of a dictionary whose key passes the predicate. A
  dictionary of keyword arguments is an association list, in call order.
\<close>

definition keyfilter :: "('k \<Rightarrow> bool) \<Rightarrow> ('k \<times> 'v) list \<Rightarrow> ('k \<times> 'v) list" where
  "keyfilter predicate d = filter (\<lambda>(k, v). predicate k) d"

text \<open>
  The wrapper called with \<open>args\<close> and \<open>kwargs\<close>. \<open>call fn pos kw\<close> stands for the call
  \<open>fn(*pos, **kw)\<close> that the wrapper makes and whose result it returns; an exception of
  \<open>number_of_args\<close> surfaces when the function is decorated.
\<close>

definition ignoring_extra_args ::
  "(callable \<Rightarrow> 'v list \<Rightarrow> (string \<times> 'v) list \<Rightarrow> 'r) \<Rightarrow> callable \<Rightarrow> 'v list \<Rightarrow> (string \<times> 'v) list
   \<Rightarrow> error + 'r" where
  "ignoring_extra_args call fn args kwargs =
     (case number_of_args fn of
        Inl err \<Rightarrow> Inl err
      | Inr n \<Rightarrow>
          (let kwa = all_keyword_args fn
           in Inr (call fn (py_slice args (Some 0) (map_option int n))
                     (keyfilter (\<lambda>k. case kwa of None \<Rightarrow> True | Some names \<Rightarrow> k \<in> set names)
                        kwargs))))"

text \<open>
  Python's call rule for arguments in excess: a call raises TypeError when it passes more
  positional arguments than the function has positional parameters and the function has no
  \<open>*args\<close>, or passes a keyword that names no keyword-capable parameter and the function
  has no \<open>**kwargs\<close>.
\<close>

definition excess_arguments :: "parameter list \<Rightarrow> 'v list \<Rightarrow> (string \<times> 'v) list \<Rightarrow> bool" where
  "excess_arguments parameters args kwargs =
     ((VAR_POSITIONAL \<notin> kind ` set parameters
        \<and> length (filter (\<lambda>p. kind p = POSITIONAL_ONLY \<or> kind p = POSITIONAL_OR_KEYWORD) parameters)
            < length args)
      \<or> (VAR_KEYWORD \<notin> kind ` set parameters
        \<and> (\<exists>k \<in> fst ` set kwargs.
              k \<notin> pname ` {p \<in> set parameters. kind p = KEYWORD_ONLY \<or> kind p = POSITIONAL_OR_KEYWORD})))"

text \<open>
  \<open>passed\<close> records a call by the arguments it passes. \<open>f_a_b\<close> is \<open>def f(a, b)\<close>,
  \<open>f_a_kw\<close> is \<open>def f(a, **kw)\<close> and \<open>f_args\<close> is \<open>def f(*args)\<close>.
\<close>

definition passed :: "callable \<Rightarrow> 'v list \<Rightarrow> (string \<times> 'v) list \<Rightarrow> 'v list \<times> (string \<times> 'v) list" where
  "passed fn args kwargs = (args, kwargs)"

definition f_a_kw :: callable where
  "f_a_kw = Function [Parameter ''a'' POSITIONAL_OR_KEYWORD, Parameter ''kw'' VAR_KEYWORD]"

definition f_args :: callable where
  "f_args = Function [Parameter ''args'' VAR_POSITIONAL]"

definition f_a_b :: callable where
  "f_a_b = Function [Parameter ''a'' POSITIONAL_OR_KEYWORD, Parameter ''b'' POSITIONAL_OR_KEYWORD]"

section \<open>dataviz/neighbours.py: mask_by_color, country_borders\<close>

text \<open>
  \<^verbatim>\<open>
  def mask_by_color(nparray, color):
      color = ImageColor.getrgba(color)
      channels = [nparray[...,i] for i in range(nparray.shape[-1])]
      mask = np.ones(nparray.shape[:-1], dtype=bool)
      for c,channel in zip(color, channels):
          mask = mask & (channel == c)
      return mask

  def country_borders(country):
      cmask = mask_by_color(maparray, palette[names.index(country)])
      edtmask = cmask | mask_by_color(maparray, bgcolor) | mask_by_color(maparray, IGNORECOLOR)
      _, (indx,indy) = ndimage.distance_transform_edt(edtmask, return_indices=True)
      edtvals = maparray[indx,indy]
      for i in range(edtvals.shape[-1]): edtvals[...,i] *= cmask
      return Image.fromarray(edtvals)
  \<close>

  The raster \<open>maparray\<close> is a numpy array of shape (height, width, channels) and type uint8,
  here the list of its rows, a row the list of its pixels, a pixel the list of its channel
  values. A boolean mask of shape (height, width) is the list of its rows. The module-level
  names the function reads (\<open>maparray\<close>, \<open>names\<close>, \<open>palette\<close>, \<open>bgcolor\<close>, \<open>IGNORECOLOR\<close>)
  are the fields of a record; \<open>'c\<close> is whatever describes a colour (a tuple, a colour
  name).
\<close>

type_synonym pixel = "8 word list"

type_synonym ndarray = "pixel list list"

type_synonym mask = "bool list list"

record 'c globals =
  maparray :: ndarray
  names :: "string list"
  palette :: "'c list"
  bgcolor :: 'c
  IGNORECOLOR :: 'c

text \<open>
  The list \<open>names\<close> is computed from the legend of the map when the module is loaded:
  \<^verbatim>\<open>
  BACKGROUND = 'Sea'
  MERGE = { 'Gibraltar': 'UK', 'Jersey': 'UK', 'Guernsey': 'UK', 'Faroe Islands': 'Denmark' }
  mapnames = RecordCSV.load_file(name_csv_path(MAP))
  names = [d['name'] for d in mapnames if d['name'] not in MERGE and d['name'] != BACKGROUND]
  \<close>
  The legend \<open>mapnames\<close> is the list of its records, a record the pair of its name and its
  colour; \<open>MERGE\<close> is the list of its items. \<open>names_from\<close> is the comprehension, for any
  legend, alias table and background name.
\<close>

definition BACKGROUND :: string where
  "BACKGROUND = ''Sea''"

definition MERGE :: "(string \<times> string) list" where
  "MERGE = [(''Gibraltar'', ''UK''), (''Jersey'', ''UK''), (''Guernsey'', ''UK''),
            (''Faroe Islands'', ''Denmark'')]"

definition names_from :: "(string \<times> 'c) list \<Rightarrow> (string \<times> string) list \<Rightarrow> string \<Rightarrow> string list" where
  "names_from mapnames aliases bgname =
     map fst (filter (\<lambda>d. fst d \<notin> set (map fst aliases) \<and> fst d \<noteq> bgname) mapnames)"

text \<open>
  The numpy operations the two functions use, element by element. \<open>shape_last\<close> is
  \<open>nparray.shape[-1]\<close>, read off the first pixel (an array without pixels has no channel to
  loop over); \<open>channel a i\<close> is the view \<open>a[...,i]\<close>; \<open>ones\<close> is
  \<open>np.ones(nparray.shape[:-1], dtype=bool)\<close>; \<open>mask_and\<close> and \<open>mask_or\<close> are \<open>&\<close> and
  \<open>|\<close> on masks; \<open>eq_scalar channel c\<close> is \<open>channel == c\<close>, which compares the value
  of each uint8 with the Python integer \<open>c\<close>.
\<close>

definition shape_last :: "ndarray \<Rightarrow> nat" where
  "shape_last a = (case concat a of [] \<Rightarrow> 0 | px # _ \<Rightarrow> length px)"

definition channel :: "ndarray \<Rightarrow> nat \<Rightarrow> 8 word list list" where
  "channel a i = map (map (\<lambda>px. px ! i)) a"

definition ones :: "ndarray \<Rightarrow> mask" where
  "ones a = map (map (\<lambda>px. True)) a"

definition mask_and :: "mask \<Rightarrow> mask \<Rightarrow> mask" where
  "mask_and m1 m2 = map2 (map2 (\<and>)) m1 m2"

definition mask_or :: "mask \<Rightarrow> mask \<Rightarrow> mask" where
  "mask_or m1 m2 = map2 (map2 (\<or>)) m1 m2"

definition eq_scalar :: "8 word list list \<Rightarrow> int \<Rightarrow> mask" where
  "eq_scalar ch c = map (map (\<lambda>v. uint v = c)) ch"

text \<open>
  \<open>ImageColor.getrgba\<close> belongs to another module of the repository (the image helpers
  that \<open>charts\<close> imports); it is the parameter \<open>getrgba\<close>, which turns a colour into the
  list of its components. \<open>zip\<close> stops at the
  shorter of the colour and the channels.
\<close>

definition mask_by_color :: "('c \<Rightarrow> int list) \<Rightarrow> ndarray \<Rightarrow> 'c \<Rightarrow> mask" where
  "mask_by_color getrgba nparray color =
     (let color = getrgba color;
          channels = map (channel nparray) [0..<shape_last nparray];
          mask = ones nparray
      in fold (\<lambda>(c, channel) mask. mask_and mask (eq_scalar channel c)) (zip color channels) mask)"

text \<open>
  \<open>names.index(country)\<close>: the position of the first occurrence, ValueError when there is
  none.
\<close>

fun index_of :: "'a list \<Rightarrow> 'a \<Rightarrow> error + nat" where
  "index_of [] x = Inl ValueError"
| "index_of (y # ys) x = (if y = x then Inr 0 else map_sum id Suc (index_of ys x))"

text \<open>
  \<open>maparray[indx,indy]\<close>, indexing with two integer arrays of one shape: a new array of that
  shape whose element at a position is \<open>maparray[indx[position], indy[position]]\<close>. Each
  index is read as a Python subscript, so a negative one counts from the end and one out of
  range raises IndexError. \<open>collect\<close> gathers the elements and stops at the first error.
\<close>

fun collect :: "(error + 'a) list \<Rightarrow> error + 'a list" where
  "collect [] = Inr []"
| "collect (Inl e # rs) = Inl e"
| "collect (Inr v # rs) = map_sum id ((#) v) (collect rs)"

definition fancy_index :: "ndarray \<Rightarrow> int list list \<Rightarrow> int list list \<Rightarrow> error + ndarray" where
  "fancy_index a indx indy =
     collect (map2 (\<lambda>ri rj. collect (map2
        (\<lambda>i j. case py_get a i of Inl e \<Rightarrow> Inl e | Inr row \<Rightarrow> py_get row j) ri rj)) indx indy)"

text \<open>
  \<open>edtvals[...,i] *= cmask\<close>: every pixel's channel \<open>i\<close> is multiplied by the mask's
  element at the pixel, True counting as 1 and False as 0.
\<close>

definition imul_channel :: "ndarray \<Rightarrow> nat \<Rightarrow> mask \<Rightarrow> ndarray" where
  "imul_channel a i m = map2 (map2 (\<lambda>px b. px[i := px ! i * of_bool b])) a m"

text \<open>
  \<open>country_borders\<close>. The library function
  \<open>ndimage.distance_transform_edt(\<dots>, return_indices=True)\<close> is the parameter \<open>edt\<close>: from
  a mask it computes the two index arrays \<open>(indx, indy)\<close>. The result is the array handed
  to \<open>Image.fromarray\<close>.
\<close>

definition country_borders ::
  "('c \<Rightarrow> int list) \<Rightarrow> (mask \<Rightarrow> int list list \<times> int list list) \<Rightarrow> 'c globals \<Rightarrow> string
   \<Rightarrow> error + ndarray" where
  "country_borders getrgba edt g country =
     (case index_of (names g) country of
        Inl e \<Rightarrow> Inl e
      | Inr n \<Rightarrow>
     (case py_get (palette g) (int n) of
        Inl e \<Rightarrow> Inl e
      | Inr color \<Rightarrow>
     (let cmask = mask_by_color getrgba (maparray g) color;
          edtmask = mask_or (mask_or cmask (mask_by_color getrgba (maparray g) (bgcolor g)))
                      (mask_by_color getrgba (maparray g) (IGNORECOLOR g));
          (indx, indy) = edt edtmask
      in case fancy_index (maparray g) indx indy of
           Inl e \<Rightarrow> Inl e
         | Inr edtvals \<Rightarrow>
             Inr (fold (\<lambda>i edtvals. imul_channel edtvals i cmask) [0..<shape_last edtvals]
                    edtvals))))"

text \<open>
  The same function with the arrays it creates and changes made explicit. The heap is the
  list of the raster arrays allocated so far, a reference is a position in it, and
  \<open>maparray\<close> is the reference \<open>mapref\<close>. Indexing with integer arrays allocates a new
  array, \<open>edtvals\<close>; each \<open>edtvals[...,i] *= cmask\<close> writes that array in place. The masks
  are temporaries that nothing writes, so they stay values. The function returns the
  reference of its result and the heap it leaves; when it raises, nothing has been
  allocated.
\<close>

type_synonym heap = "ndarray list"

definition alloc :: "heap \<Rightarrow> ndarray \<Rightarrow> nat \<times> heap" where
  "alloc h a = (length h, h @ [a])"

definition country_borders_heap ::
  "('c \<Rightarrow> int list) \<Rightarrow> (mask \<Rightarrow> int list list \<times> int list list) \<Rightarrow> 'c globals \<Rightarrow> nat \<Rightarrow> string
   \<Rightarrow> heap \<Rightarrow> (error + nat) \<times> heap" where
  "country_borders_heap getrgba edt g mapref country h =
     (case index_of (names g) country of
        Inl e \<Rightarrow> (Inl e, h)
      | Inr n \<Rightarrow>
     (case py_get (palette g) (int n) of
        Inl e \<Rightarrow> (Inl e, h)
      | Inr color \<Rightarrow>
     (let cmask = mask_by_color getrgba (h ! mapref) color;
          edtmask = mask_or (mask_or cmask (mask_by_color getrgba (h ! mapref) (bgcolor g)))
                      (mask_by_color getrgba (h ! mapref) (IGNORECOLOR g));
          (indx, indy) = edt edtmask
      in case fancy_index (h ! mapref) indx indy of
           Inl e \<Rightarrow> (Inl e, h)
         | Inr copy \<Rightarrow>
             (let (edtvals, h) = alloc h copy;
                  h = fold (\<lambda>i h. h[edtvals := imul_channel (h ! edtvals) i cmask])
                        [0..<shape_last (h ! edtvals)] h
              in (Inr edtvals, h)))))"

text \<open>
  Modelled from the spec: \<open>scipy.ndimage.distance_transform_edt\<close> with
  \<open>return_indices=True\<close>, a function of the scipy library and not of this repository. The
  spec (4.1, step 3) has it compute, for every pixel of the mask, the coordinates of the
  nearest pixel that is not in the mask, by Euclidean distance; a pixel outside the mask is
  its own nearest. Among several nearest pixels the spec leaves the choice open; this model
  takes the first in row-major order. For a mask with no pixel outside it the spec says
  nothing; scipy leaves its index arrays as they were initialised, -1 for the row and 0 for
  the column, and so does this model. The theorems below hold for every function with the
  properties collected in \<open>feature_transform\<close>; this model is the instance the concrete
  runs use.
\<close>

definition sqdist :: "nat \<times> nat \<Rightarrow> nat \<times> nat \<Rightarrow> int" where
  "sqdist p q = (int (fst p) - int (fst q))\<^sup>2 + (int (snd p) - int (snd q))\<^sup>2"

definition background :: "mask \<Rightarrow> (nat \<times> nat) list" where
  "background m =
     concat (map (\<lambda>r. map (\<lambda>c. (r, c)) (filter (\<lambda>c. \<not> m ! r ! c) [0..<length (m ! r)]))
       [0..<length m])"

fun nearest :: "nat \<times> nat \<Rightarrow> (nat \<times> nat) list \<Rightarrow> (nat \<times> nat) option" where
  "nearest p [] = None"
| "nearest p (q # qs) =
     (case nearest p qs of
        None \<Rightarrow> Some q
      | Some q' \<Rightarrow> if sqdist p q \<le> sqdist p q' then Some q else Some q')"

definition feature :: "mask \<Rightarrow> nat \<Rightarrow> nat \<Rightarrow> int \<times> int" where
  "feature m r c =
     (case nearest (r, c) (background m) of
        None \<Rightarrow> (-1, 0)
      | Some (r', c') \<Rightarrow> (int r', int c'))"

definition distance_transform_edt :: "mask \<Rightarrow> int list list \<times> int list list" where
  "distance_transform_edt m =
     (map (\<lambda>r. map (\<lambda>c. fst (feature m r c)) [0..<length (m ! r)]) [0..<length m],
      map (\<lambda>r. map (\<lambda>c. snd (feature m r c)) [0..<length (m ! r)]) [0..<length m])"

section \<open>Vocabulary of the properties\<close>

text \<open>
  \<open>has_color c px\<close>: the pixel \<open>px\<close> passes the comparison \<open>mask_by_color\<close> makes with the
  components \<open>c\<close>. \<open>rect H W a\<close>: \<open>a\<close> has \<open>H\<close> rows of \<open>W\<close> elements; \<open>uniform C a\<close>: every
  pixel of \<open>a\<close> has \<open>C\<close> channels. \<open>valid_index n i\<close>: \<open>i\<close> is a subscript numpy accepts on
  an axis of length \<open>n\<close>.
\<close>

definition has_color :: "int list \<Rightarrow> pixel \<Rightarrow> bool" where
  "has_color c px = list_all (\<lambda>(c, v). uint v = c) (zip c px)"

definition rect :: "nat \<Rightarrow> nat \<Rightarrow> 'a list list \<Rightarrow> bool" where
  "rect H W g = (length g = H \<and> (\<forall>row \<in> set g. length row = W))"

definition uniform :: "nat \<Rightarrow> ndarray \<Rightarrow> bool" where
  "uniform C a = (\<forall>row \<in> set a. \<forall>px \<in> set row. length px = C)"

definition valid_index :: "nat \<Rightarrow> int \<Rightarrow> bool" where
  "valid_index n i = (- int n \<le> i \<and> i < int n)"

text \<open>
  What the properties need of the distance transform: on a mask of shape (H, W) it returns
  two index arrays of that shape whose entries are valid subscripts, and when some pixel
  lies outside the mask, the entries at every position are the coordinates of such a pixel.
  Which one (the nearest) plays no part in the properties below.
\<close>

definition feature_transform :: "(mask \<Rightarrow> int list list \<times> int list list) \<Rightarrow> bool" where
  "feature_transform edt =
     (\<forall>H W m. rect H W m \<longrightarrow>
        (case edt m of (indx, indy) \<Rightarrow>
           rect H W indx \<and> rect H W indy
           \<and> (\<forall>r<H. \<forall>c<W.
                 valid_index H (indx ! r ! c) \<and> valid_index W (indy ! r ! c)
                 \<and> ((\<exists>r'<H. \<exists>c'<W. \<not> m ! r' ! c') \<longrightarrow>
                      0 \<le> indx ! r ! c \<and> 0 \<le> indy ! r ! c
                      \<and> \<not> m ! nat (indx ! r ! c) ! nat (indy ! r ! c)))))"

text \<open>
  \<open>barrier\<close> is the mask \<open>edtmask\<close>, pixel by pixel. \<open>two_region_raster\<close>: every pixel of
  the raster has exactly one of the colours of A, of B and of the background, none has the
  ignore colour, and both A and B occur.
\<close>

definition barrier :: "('c \<Rightarrow> int list) \<Rightarrow> 'c globals \<Rightarrow> 'c \<Rightarrow> mask" where
  "barrier getrgba g color =
     map (map (\<lambda>px. has_color (getrgba color) px \<or> has_color (getrgba (bgcolor g)) px
                  \<or> has_color (getrgba (IGNORECOLOR g)) px)) (maparray g)"

definition two_region_raster :: "('c \<Rightarrow> int list) \<Rightarrow> 'c globals \<Rightarrow> 'c \<Rightarrow> 'c \<Rightarrow> bool" where
  "two_region_raster getrgba g cA cB =
     ((\<forall>row \<in> set (maparray g). \<forall>px \<in> set row.
         \<not> has_color (getrgba (IGNORECOLOR g)) px
         \<and> (has_color (getrgba cA) px \<and> \<not> has_color (getrgba cB) px
               \<and> \<not> has_color (getrgba (bgcolor g)) px
            \<or> \<not> has_color (getrgba cA) px \<and> has_color (getrgba cB) px
               \<and> \<not> has_color (getrgba (bgcolor g)) px
            \<or> \<not> has_color (getrgba cA) px \<and> \<not> has_color (getrgba cB) px
               \<and> has_color (getrgba (bgcolor g)) px))
      \<and> (\<exists>row \<in> set (maparray g). \<exists>px \<in> set row. has_color (getrgba cA) px)
      \<and> (\<exists>row \<in> set (maparray g). \<exists>px \<in> set row. has_color (getrgba cB) px))"

section \<open>Concrete maps\<close>

text \<open>
  Colours as RGBA components, the pixels that show them (\<open>R\<close> red, \<open>G\<close> green, \<open>S\<close> the blue
  of the sea, \<open>Z\<close> zero), and three small maps with blue as background and grey as ignore
  colour: \<open>two_region_map\<close> has the regions A (red) and B (green) and a region C (yellow)
  without pixels; \<open>island_map\<close> is the 4x4 raster whose top-left 2x2 block is region A and
  whose other pixels are background; \<open>solid_map\<close> is a single pixel of region A.
  \<open>heap0\<close> is the heap that holds the raster of \<open>two_region_map\<close> and nothing else.
  \<open>small_legend\<close> is a legend from which \<open>names_from\<close>, with the module's \<open>MERGE\<close> and
  \<open>BACKGROUND\<close>, computes the \<open>names\<close> of \<open>two_region_map\<close>.
\<close>

definition red :: "int list" where "red = [255, 0, 0, 255]"

definition green :: "int list" where "green = [0, 255, 0, 255]"

definition blue :: "int list" where "blue = [0, 0, 255, 255]"

definition yellow :: "int list" where "yellow = [255, 255, 0, 255]"

definition grey :: "int list" where "grey = [128, 128, 128, 255]"

definition R :: pixel where "R = [255, 0, 0, 255]"

definition G :: pixel where "G = [0, 255, 0, 255]"

definition S :: pixel where "S = [0, 0, 255, 255]"

definition Z :: pixel where "Z = [0, 0, 0, 0]"

definition two_region_map :: "int list globals" where
  "two_region_map =
     \<lparr>maparray = [[R, R, S, G],
                  [R, S, S, G]],
      names = [''A'', ''B'', ''C''], palette = [red, green, yellow],
      bgcolor = blue, IGNORECOLOR = grey\<rparr>"


definition solid_map :: "int list globals" where
  "solid_map =
     \<lparr>maparray = [[R]], names = [''A''], palette = [red], bgcolor = blue, IGNORECOLOR = grey\<rparr>"

definition small_legend :: "(string \<times> int list) list" where
  "small_legend = [(''Sea'', blue), (''A'', red), (''Gibraltar'', grey), (''B'', green),
                   (''C'', yellow)]"

definition heap0 :: heap where
  "heap0 = [maparray two_region_map]"

section \<open>Properties of update_sequence\<close>

lemma take_drop_update: "k < length t \<Longrightarrow> take k t @ [x] @ drop (Suc k) t = t[k := x]"
  by (simp add: upd_conv_take_nth_drop)

text \<open>
  Claim C10. For an index \<open>n\<close> with \<open>-len(s) \<le> n < len(s)\<close>, \<open>update_sequence s n x\<close>
  returns the sequence \<open>s\<close> with the element at Python index \<open>n\<close> (counted from the end
  when negative) replaced by \<open>x\<close> and every other element unchanged; for every other
  \<open>n\<close> it raises IndexError.
\<close>

theorem update_sequence_spec:
  "(- int (length s) \<le> n \<and> n < int (length s) \<longrightarrow>
      update_sequence s n x = Inr (s[py_pos (length s) n := x]))
   \<and> (\<not> (- int (length s) \<le> n \<and> n < int (length s)) \<longrightarrow>
      update_sequence s n x = Inl IndexError)"
proof (intro conjI impI)
  assume range: "- int (length s) \<le> n \<and> n < int (length s)"
  show "update_sequence s n x = Inr (s[py_pos (length s) n := x])"
  proof (cases "n < 0")
    case False
    with range have k: "nat n < length s" by linarith
    have "py_slice s (Some 0) (Some n) = take (nat n) s"
      using False k by (simp add: py_slice_def slice_bound_def)
    moreover have "py_slice s (Some (n + 1)) (if n = -1 then Some 0 else None) = drop (Suc (nat n)) s"
      using False k by (simp add: py_slice_def slice_bound_def nat_add_distrib)
    ultimately show ?thesis
      using range False k take_drop_update [of "nat n" s x]
      by (simp add: update_sequence_def py_pos_def)
  next
    case True
    define k where "k = nat (int (length s) + n)"
    from range True have k: "k < length s" and kn: "int k = int (length s) + n"
      by (simp_all add: k_def)
    have front: "py_slice s (Some 0) (Some n) = take k s"
      using True range by (simp add: py_slice_def slice_bound_def k_def max_def)
    have rear: "py_slice s (Some (n + 1)) (if n = -1 then Some 0 else None) = drop (Suc k) s"
    proof (cases "n = -1")
      case True
      then have "Suc k = length s" using kn by simp
      then show ?thesis using True by (simp add: py_slice_def slice_bound_def)
    next
      case False
      with True have "n + 1 < 0" by simp
      moreover have "nat (int (length s) + (n + 1)) = Suc k" using kn by simp
      moreover have "0 \<le> int (length s) + (n + 1)" using kn by linarith
      ultimately show ?thesis using False
        by (simp add: py_slice_def slice_bound_def max_def)
    qed
    show ?thesis
      using range True k front rear take_drop_update [of k s x]
      by (simp add: update_sequence_def py_pos_def k_def)
  qed
next
  assume "\<not> (- int (length s) \<le> n \<and> n < int (length s))"
  then show "update_sequence s n x = Inl IndexError"
    by (auto simp add: update_sequence_def)
qed

theorem update_sequence_spec_witness:
  "update_sequence [1, 2, 3 :: int] (-1) 9 = Inr [1, 2, 9]
   \<and> update_sequence [1, 2, 3 :: int] (-3) 9 = Inr [9, 2, 3]
   \<and> update_sequence [1, 2, 3 :: int] 1 9 = Inr [1, 9, 3]
   \<and> update_sequence [1, 2, 3 :: int] 3 9 = Inl IndexError
   \<and> update_sequence [1, 2, 3 :: int] (-4) 9 = Inl IndexError"
  using update_sequence_spec [of "[1, 2, 3 :: int]" "-1" 9]
    update_sequence_spec [of "[1, 2, 3 :: int]" "-3" 9]
    update_sequence_spec [of "[1, 2, 3 :: int]" 1 9]
    update_sequence_spec [of "[1, 2, 3 :: int]" 3 9]
    update_sequence_spec [of "[1, 2, 3 :: int]" "-4" 9]
  by (simp add: py_pos_def)

section \<open>Properties of with_retries\<close>

lemma not_after_datetime_max: "\<not> datetime_gt d datetime_max"
proof -
  have "Rep_datetime d \<le> 315537897599999999" using Rep_datetime [of d] by simp
  moreover have "Rep_datetime datetime_max = 315537897599999999"
    by (simp add: datetime_max_def Abs_datetime_inverse)
  ultimately show ?thesis by (simp add: datetime_gt_def)
qed

lemma always_raisesD:
  assumes "always_raises fn handled"
  obtains e w' where "fn w = (Inl e, w')" and "handled e"
proof -
  from assms have c: "case fn w of (Inl e, w') \<Rightarrow> handled e | (Inr v, w') \<Rightarrow> False"
    by (simp add: always_raises_def)
  obtain r w' where f: "fn w = (r, w')" by (cases "fn w")
  with c obtain e where "r = Inl e" and "handled e" by (cases r) auto
  with f that show thesis by blast
qed

lemma retry_loop_unbounded_diverges:
  assumes "always_raises fn handled"
  shows "retry_loop fuel fn None interval handled now sleep i w calls = None"
proof (induction fuel arbitrary: i w calls)
  case 0
  show ?case by simp
next
  case (Suc fuel)
  obtain e w' where "fn w = (Inl e, w')" and "handled e"
    using assms by (rule always_raisesD)
  then show ?case using Suc.IH by (simp add: not_after_datetime_max)
qed

lemma retry_loop_exhausts:
  assumes ar: "always_raises fn handled"
  shows "0 < k \<Longrightarrow> i + int k = m \<Longrightarrow> k \<le> fuel \<Longrightarrow>
    retry_loop fuel fn (Some m) interval handled now sleep i w calls =
      (let wl = (after_failure fn sleep interval ^^ (k - 1)) w
       in Some (Raised (projl (fst (fn wl))), snd (fn wl), calls + k))"
proof (induction k arbitrary: i w calls fuel)
  case 0
  then show ?case by simp
next
  case (Suc k)
  obtain e w' where f: "fn w = (Inl e, w')" and h: "handled e"
    using ar by (rule always_raisesD)
  from Suc.prems obtain fuel' where fuel: "fuel = Suc fuel'" and le: "k \<le> fuel'"
    by (cases fuel) auto
  show ?case
  proof (cases "k = 0")
    case True
    with Suc.prems have "i + 1 = m" by simp
    then show ?thesis using True f h fuel by simp
  next
    case False
    with Suc.prems have lt: "i < m" and ne: "i + 1 \<noteq> m" and rest: "(i + 1) + int k = m"
      by simp_all
    have "retry_loop fuel' fn (Some m) interval handled now sleep (i + 1)
            (sleep interval w') (calls + 1) =
          (let wl = (after_failure fn sleep interval ^^ (k - 1)) (sleep interval w')
           in Some (Raised (projl (fst (fn wl))), snd (fn wl), calls + 1 + k))"
      using Suc.IH [OF _ rest le] False by simp
    moreover have "(after_failure fn sleep interval ^^ (k - 1)) (sleep interval w')
        = (after_failure fn sleep interval ^^ (Suc k - 1)) w"
    proof -
      have "sleep interval w' = after_failure fn sleep interval w"
        by (simp add: after_failure_def f)
      moreover have "Suc k - 1 = Suc (k - 1)" using False by simp
      ultimately show ?thesis by (simp only: funpow_Suc_right o_apply)
    qed
    ultimately show ?thesis
      using f h fuel lt ne by (simp add: not_after_datetime_max Let_def)
  qed
qed

text \<open>
  Claim C3, as the code has it. A function that raises a handled exception at its first two
  calls and returns at the third: \<open>with_retries(f, max_retries=3)\<close> returns that value
  after exactly 3 calls. A function whose every call raises a handled exception:
  \<open>with_retries(f, max_retries=n)\<close> with \<open>n \<ge> 1\<close> lets the exception of the \<open>n\<close>-th call
  through after exactly \<open>n\<close> calls (the loop is \<open>range(max_retries)\<close> and its last
  iteration re-raises), not \<open>n + 1\<close>.
\<close>

theorem with_retries_max_retries:
  "(fn1 w0 = (Inl e1, w1) \<and> handled e1
      \<and> fn1 (sleep interval w1) = (Inl e2, w2) \<and> handled e2
      \<and> fn1 (sleep interval w2) = (Inr v, w3) \<and> 3 \<le> fuel
     \<longrightarrow> with_retries fuel fn1 (Some 3) None interval handled now sleep w0
           = Some (Returned v, w3, 3))
   \<and> (always_raises fn2 handled \<and> 0 < n \<and> n \<le> fuel
     \<longrightarrow> with_retries fuel fn2 (Some (int n)) None interval handled now sleep w0
           = (let wl = (after_failure fn2 sleep interval ^^ (n - 1)) w0
              in Some (Raised (projl (fst (fn2 wl))), snd (fn2 wl), n)))"
proof (intro conjI impI)
  assume a: "fn1 w0 = (Inl e1, w1) \<and> handled e1
      \<and> fn1 (sleep interval w1) = (Inl e2, w2) \<and> handled e2
      \<and> fn1 (sleep interval w2) = (Inr v, w3) \<and> 3 \<le> fuel"
  then obtain f where "fuel = Suc (Suc (Suc f))"
    by (metis Suc_le_D eval_nat_numeral(3) Suc_le_mono numeral_2_eq_2 Suc_1)
  with a show "with_retries fuel fn1 (Some 3) None interval handled now sleep w0
           = Some (Returned v, w3, 3)"
    by (simp add: with_retries_def not_after_datetime_max)
next
  assume a: "always_raises fn2 handled \<and> 0 < n \<and> n \<le> fuel"
  then show "with_retries fuel fn2 (Some (int n)) None interval handled now sleep w0
           = (let wl = (after_failure fn2 sleep interval ^^ (n - 1)) w0
              in Some (Raised (projl (fst (fn2 wl))), snd (fn2 wl), n))"
    using retry_loop_exhausts [of fn2 handled n 0 "int n" fuel interval now sleep w0 0]
    by (simp add: with_retries_def)
qed

lemma always_raises_failing_fn: "always_raises failing_fn (\<lambda>e. True)"
  by (simp add: always_raises_def failing_fn_def)

theorem with_retries_max_retries_witness:
  "with_retries 5 flaky_fn (Some 3) None 500000 (\<lambda>e. True) test_now test_sleep
      \<lparr>clock = 0, attempts = 0\<rparr>
     = Some (Returned 42, \<lparr>clock = 1000000, attempts = 3\<rparr>, 3)
   \<and> with_retries 5 failing_fn (Some 3) None 500000 (\<lambda>e. True) test_now test_sleep
      \<lparr>clock = 0, attempts = 0\<rparr>
     = Some (Raised (), \<lparr>clock = 1000000, attempts = 3\<rparr>, 3)"
  using with_retries_max_retries [of flaky_fn "\<lparr>clock = 0, attempts = 0\<rparr>" "()"
      "\<lparr>clock = 0, attempts = 1\<rparr>" "\<lambda>e. True" test_sleep 500000 "()"
      "\<lparr>clock = 500000, attempts = 2\<rparr>" 42 "\<lparr>clock = 1000000, attempts = 3\<rparr>" 5
      test_now failing_fn 3]
    always_raises_failing_fn
  by (simp add: flaky_fn_def failing_fn_def test_sleep_def after_failure_def eval_nat_numeral)

text \<open>
  Claim C3 as stated fails: with \<open>max_retries = 3\<close> a function that always raises is called
  3 times, not 4.
\<close>

theorem with_retries_calls_counterexample:
  "with_retries 5 failing_fn (Some 3) None 500000 (\<lambda>e. True) test_now test_sleep
      \<lparr>clock = 0, attempts = 0\<rparr>
     = Some (Raised (), \<lparr>clock = 1000000, attempts = 3\<rparr>, 3)
   \<and> with_retries 5 failing_fn (Some 3) None 500000 (\<lambda>e. True) test_now test_sleep
      \<lparr>clock = 0, attempts = 0\<rparr>
     \<noteq> Some (Raised (), \<lparr>clock = 1500000, attempts = 4\<rparr>, 4)"
  by (simp add: with_retries_def failing_fn_def test_sleep_def not_after_datetime_max
      eval_nat_numeral)

text \<open>
  Claim C4 fails on the code. The wrapper computes \<open>end_time\<close> and never reads it: the
  test after a failed call compares the clock with \<open>datetime.max\<close>, which no datetime
  exceeds. With \<open>max_retries\<close> unset and a function that always raises a handled exception,
  the wrapper neither returns nor raises, whatever the clock reads and however long
  \<open>max_duration\<close> is: the run is still going after any number of attempts.
\<close>

theorem with_retries_max_duration_ignored:
  "always_raises fn handled \<and> datetime_add (now w0) d = Inr end_time
   \<longrightarrow> with_retries fuel fn None (Some d) interval handled now sleep w0 = None"
  by (simp add: with_retries_def retry_loop_unbounded_diverges)

theorem with_retries_max_duration_ignored_witness:
  "datetime_add (test_now \<lparr>clock = 0, attempts = 0\<rparr>) 1000000 = Inr (Abs_datetime 1000000)
   \<and> datetime_gt
        (test_now ((after_failure failing_fn test_sleep 500000 ^^ 3) \<lparr>clock = 0, attempts = 0\<rparr>))
        (Abs_datetime 1000000)
   \<and> with_retries 100 failing_fn None (Some 1000000) 500000 (\<lambda>e. True) test_now test_sleep
        \<lparr>clock = 0, attempts = 0\<rparr> = None"
proof -
  have add: "datetime_add (test_now \<lparr>clock = 0, attempts = 0\<rparr>) 1000000 = Inr (Abs_datetime 1000000)"
    by (simp add: datetime_add_def test_now_def Abs_datetime_inverse)
  have late: "datetime_gt
        (test_now ((after_failure failing_fn test_sleep 500000 ^^ 3) \<lparr>clock = 0, attempts = 0\<rparr>))
        (Abs_datetime 1000000)"
    by (simp add: datetime_gt_def test_now_def after_failure_def failing_fn_def test_sleep_def
        Abs_datetime_inverse eval_nat_numeral)
  show ?thesis
    using add late always_raises_failing_fn
      with_retries_max_duration_ignored [of failing_fn "\<lambda>e. True" test_now
        "\<lparr>clock = 0, attempts = 0\<rparr>" 1000000 "Abs_datetime 1000000" 100 500000 test_sleep]
    by simp
qed

section \<open>Properties of ignoring_extra_args\<close>

lemma slice_prefix: "py_slice xs (Some 0) (Some (int n)) = take n xs"
  by (simp add: py_slice_def slice_bound_def min_def)

lemma slice_whole: "py_slice xs (Some 0) None = xs"
  by (simp add: py_slice_def slice_bound_def)

lemma ignoring_extra_args_Function:
  "ignoring_extra_args call (Function parameters) args kwargs =
     Inr (call (Function parameters)
       (if VAR_POSITIONAL \<in> kind ` set parameters then args
        else take (length (filter (\<lambda>p. kind p = POSITIONAL_ONLY \<or> kind p = POSITIONAL_OR_KEYWORD)
                            parameters)) args)
       (if VAR_KEYWORD \<in> kind ` set parameters then kwargs
        else filter (\<lambda>(k, v). \<exists>p \<in> set parameters. pname p = k
                       \<and> (kind p = KEYWORD_ONLY \<or> kind p = POSITIONAL_OR_KEYWORD)) kwargs))"
proof -
  have ex: "list_ex (\<lambda>p. kind p = K) parameters = (K \<in> kind ` set parameters)" for K
    by (auto simp add: list_ex_iff)
  have kw: "(k \<in> pname ` {p \<in> set parameters. kind p = KEYWORD_ONLY \<or> kind p = POSITIONAL_OR_KEYWORD})
      = (\<exists>p \<in> set parameters. pname p = k \<and> (kind p = KEYWORD_ONLY \<or> kind p = POSITIONAL_OR_KEYWORD))" for k
    by auto
  show ?thesis
    by (simp add: ignoring_extra_args_def ex slice_prefix slice_whole keyfilter_def kw)
qed

text \<open>
  Claim C8, as the code has it. For a function with the given parameters,
  \<open>ignoring_extra_args\<close> calls it with the first \<open>n\<close> positional arguments, \<open>n\<close> the number
  of its positional parameters, unless it has a \<open>*args\<close> parameter, in which case every
  positional argument is passed; and with the keyword arguments that name one of its
  keyword-capable parameters, unless it has a \<open>**kwargs\<close> parameter, in which case every
  keyword argument is passed. The two filters are independent of each other. The call the
  wrapper makes never has an argument in excess, so no TypeError is raised for one.
\<close>

theorem ignoring_extra_args_spec:
  "ignoring_extra_args call (Function parameters) args kwargs =
     Inr (call (Function parameters)
       (if VAR_POSITIONAL \<in> kind ` set parameters then args
        else take (length (filter (\<lambda>p. kind p = POSITIONAL_ONLY \<or> kind p = POSITIONAL_OR_KEYWORD)
                            parameters)) args)
       (if VAR_KEYWORD \<in> kind ` set parameters then kwargs
        else filter (\<lambda>(k, v). \<exists>p \<in> set parameters. pname p = k
                       \<and> (kind p = KEYWORD_ONLY \<or> kind p = POSITIONAL_OR_KEYWORD)) kwargs))
   \<and> (\<forall>pos kw. ignoring_extra_args passed (Function parameters) args kwargs = Inr (pos, kw)
        \<longrightarrow> \<not> excess_arguments parameters pos kw)"
proof (intro conjI allI impI)
  show "ignoring_extra_args call (Function parameters) args kwargs =
     Inr (call (Function parameters)
       (if VAR_POSITIONAL \<in> kind ` set parameters then args
        else take (length (filter (\<lambda>p. kind p = POSITIONAL_ONLY \<or> kind p = POSITIONAL_OR_KEYWORD)
                            parameters)) args)
       (if VAR_KEYWORD \<in> kind ` set parameters then kwargs
        else filter (\<lambda>(k, v). \<exists>p \<in> set parameters. pname p = k
                       \<and> (kind p = KEYWORD_ONLY \<or> kind p = POSITIONAL_OR_KEYWORD)) kwargs))"
    by (rule ignoring_extra_args_Function)
next
  fix pos kw
  assume "ignoring_extra_args passed (Function parameters) args kwargs = Inr (pos, kw)"
  then show "\<not> excess_arguments parameters pos kw"
    unfolding ignoring_extra_args_Function
    by (auto simp add: passed_def excess_arguments_def)
qed

theorem ignoring_extra_args_spec_witness:
  "ignoring_extra_args passed f_a_b [1, 2, 3 :: int] [(''b'', 7), (''c'', 8)]
     = Inr ([1, 2], [(''b'', 7)])
   \<and> \<not> excess_arguments [Parameter ''a'' POSITIONAL_OR_KEYWORD, Parameter ''b'' POSITIONAL_OR_KEYWORD]
        [1, 2 :: int] [(''b'', 7 :: int)]"
  using ignoring_extra_args_spec [of passed
      "[Parameter ''a'' POSITIONAL_OR_KEYWORD, Parameter ''b'' POSITIONAL_OR_KEYWORD]"
      "[1, 2, 3 :: int]" "[(''b'', 7), (''c'', 8)]"]
  by (simp add: f_a_b_def passed_def)

text \<open>
  Claim C8 as stated fails on its last part: a \<open>**kwargs\<close> parameter does not let extra
  positional arguments through (\<open>def f(a, **kw)\<close> called with 1, 2, 3 receives 1 only), and a
  \<open>*args\<close> parameter does not let keyword arguments through.
\<close>

theorem ignoring_extra_args_variadic_counterexample:
  "ignoring_extra_args passed f_a_kw [1, 2, 3 :: int] [(''x'', 7)] = Inr ([1], [(''x'', 7)])
   \<and> ignoring_extra_args passed f_a_kw [1, 2, 3 :: int] [(''x'', 7)] \<noteq> Inr ([1, 2, 3], [(''x'', 7)])
   \<and> ignoring_extra_args passed f_args [1, 2, 3 :: int] [(''x'', 7)] = Inr ([1, 2, 3], [])
   \<and> ignoring_extra_args passed f_args [1, 2, 3 :: int] [(''x'', 7)] \<noteq> Inr ([1, 2, 3], [(''x'', 7)])"
  by (simp add: ignoring_extra_args_def f_a_kw_def f_args_def passed_def keyfilter_def
      py_slice_def slice_bound_def)

section \<open>Properties of mask_by_color and country_borders\<close>

lemma map2_same: "map2 f (map g xs) (map h xs) = map (\<lambda>x. f (g x) (h x)) xs"
  by (induction xs) auto

lemma mask_and_maps:
  "mask_and (map (map f) a) (map (map g) a) = map (map (\<lambda>px. f px \<and> g px)) a"
  by (simp add: mask_and_def map2_same)

lemma mask_or_maps:
  "mask_or (map (map f) a) (map (map g) a) = map (map (\<lambda>px. f px \<or> g px)) a"
  by (simp add: mask_or_def map2_same)

lemma fold_channels:
  "fold (\<lambda>(c, channel) mask. mask_and mask (eq_scalar channel c)) (zip cs (map (channel a) js))
     (map (map f) a)
   = map (map (\<lambda>px. fold (\<lambda>(c, i) b. b \<and> uint (px ! i) = c) (zip cs js) (f px))) a"
proof (induction cs arbitrary: js f)
  case Nil
  show ?case by simp
next
  case (Cons c cs)
  show ?case
  proof (cases js)
    case Nil
    then show ?thesis by simp
  next
    case (Cons j js')
    have "mask_and (map (map f) a) (eq_scalar (channel a j) c)
        = map (map (\<lambda>px. f px \<and> uint (px ! j) = c)) a"
      using mask_and_maps [of f a "\<lambda>px. uint (px ! j) = c"]
      by (simp add: eq_scalar_def channel_def comp_def)
    then show ?thesis using Cons Cons.IH [of js' "\<lambda>px. f px \<and> uint (px ! j) = c"] by simp
  qed
qed

lemma fold_conj: "fold (\<lambda>(c, i) b. b \<and> P c i) zs b0 = (b0 \<and> list_all (\<lambda>(c, i). P c i) zs)"
  by (induction zs arbitrary: b0) auto

lemma zip_nth_upt:
  "zip cs px = map (\<lambda>(c, i). (c, px ! i)) (zip cs [0..<length px])"
proof -
  have "zip cs (map ((!) px) [0..<length px]) = map (\<lambda>(c, i). (c, px ! i)) (zip cs [0..<length px])"
    by (simp add: zip_map2)
  then show ?thesis by (simp add: map_nth)
qed

lemma fold_pixel:
  "fold (\<lambda>(c, i) b. b \<and> uint (px ! i) = c) (zip cs [0..<length px]) True = has_color cs px"
proof -
  have "has_color cs px = list_all (\<lambda>(c, i). uint (px ! i) = c) (zip cs [0..<length px])"
    unfolding has_color_def by (subst zip_nth_upt) (simp add: list_all_iff split_def)
  then show ?thesis by (simp add: fold_conj)
qed

lemma shape_last_uniform:
  assumes "uniform C a" and "px \<in> set row" and "row \<in> set a"
  shows "shape_last a = C"
proof -
  from assms have "px \<in> set (concat a)" by auto
  then obtain q qs where c: "concat a = q # qs" by (cases "concat a") auto
  then have "q \<in> set (concat a)" by simp
  then have "length q = C" using assms(1) by (auto simp add: uniform_def)
  then show ?thesis by (simp add: shape_last_def c)
qed

lemma mask_by_color_pointwise:
  assumes "uniform C a"
  shows "mask_by_color getrgba a color = map (map (has_color (getrgba color))) a"
proof -
  have "mask_by_color getrgba a color
      = map (map (\<lambda>px. fold (\<lambda>(c, i) b. b \<and> uint (px ! i) = c)
               (zip (getrgba color) [0..<shape_last a]) True)) a"
    unfolding mask_by_color_def Let_def ones_def by (rule fold_channels)
  also have "\<dots> = map (map (has_color (getrgba color))) a"
  proof (intro map_cong refl)
    fix row px assume "row \<in> set a" and "px \<in> set row"
    then have "shape_last a = length px"
      using assms shape_last_uniform [of C a px row] by (simp add: uniform_def)
    then show "fold (\<lambda>(c, i) b. b \<and> uint (px ! i) = c) (zip (getrgba color) [0..<shape_last a]) True
        = has_color (getrgba color) px"
      by (simp add: fold_pixel)
  qed
  finally show ?thesis .
qed

lemma rect_row: "rect H W g \<Longrightarrow> r < H \<Longrightarrow> length (g ! r) = W"
  by (simp add: rect_def)

lemma rect_eqI:
  assumes "rect H W g" and "rect H W g'"
    and "\<And>r c. r < H \<Longrightarrow> c < W \<Longrightarrow> g ! r ! c = g' ! r ! c"
  shows "g = g'"
proof (rule nth_equalityI)
  show "length g = length g'" using assms by (simp add: rect_def)
next
  fix r assume "r < length g"
  then have r: "r < H" using assms(1) by (simp add: rect_def)
  show "g ! r = g' ! r"
  proof (rule nth_equalityI)
    show "length (g ! r) = length (g' ! r)" using assms r by (simp add: rect_row)
  next
    fix c assume "c < length (g ! r)"
    then have "c < W" using assms(1) r by (simp add: rect_row)
    then show "g ! r ! c = g' ! r ! c" using assms(3) r by simp
  qed
qed

lemma rect_map: "rect H W g \<Longrightarrow> rect H W (map (map f) g)"
  by (simp add: rect_def)

lemma nth_map_map: "rect H W g \<Longrightarrow> r < H \<Longrightarrow> c < W \<Longrightarrow> map (map f) g ! r ! c = f (g ! r ! c)"
  by (simp add: rect_def)

lemma rect_map2:
  assumes "rect H W g" and "rect H W g'"
  shows "rect H W (map2 (map2 f) g g')"
proof -
  have "length (map2 f row row') = W" if "(row, row') \<in> set (zip g g')" for row row'
  proof -
    from that have "row \<in> set g" and "row' \<in> set g'"
      by (auto dest: set_zip_leftD set_zip_rightD)
    then show ?thesis using assms by (simp add: rect_def)
  qed
  then show ?thesis using assms by (auto simp add: rect_def)
qed

lemma nth_map2_map2:
  "rect H W g \<Longrightarrow> rect H W g' \<Longrightarrow> r < H \<Longrightarrow> c < W
   \<Longrightarrow> map2 (map2 f) g g' ! r ! c = f (g ! r ! c) (g' ! r ! c)"
  by (simp add: rect_def)

lemma collect_all_Inr:
  "(\<And>x. x \<in> set xs \<Longrightarrow> f x = Inr (g x)) \<Longrightarrow> collect (map f xs) = Inr (map g xs)"
  by (induction xs) auto

lemma collect_error: "collect rs = Inl e \<Longrightarrow> Inl e \<in> set rs"
proof (induction rs)
  case Nil
  then show ?case by simp
next
  case (Cons r rs)
  then show ?case by (cases r; cases "collect rs") auto
qed

lemma py_get_error: "py_get xs i = Inl e \<Longrightarrow> e = IndexError"
  by (auto simp add: py_get_def split: if_splits)

lemma py_get_valid: "valid_index (length xs) i \<Longrightarrow> py_get xs i = Inr (xs ! py_pos (length xs) i)"
  by (simp add: py_get_def valid_index_def)

lemma py_pos_less: "valid_index n i \<Longrightarrow> py_pos n i < n"
  by (auto simp add: py_pos_def valid_index_def)

lemma fancy_index_error: "fancy_index a indx indy = Inl e \<Longrightarrow> e = IndexError"
proof -
  assume "fancy_index a indx indy = Inl e"
  then obtain ri rj where "collect (map2
        (\<lambda>i j. case py_get a i of Inl e \<Rightarrow> Inl e | Inr row \<Rightarrow> py_get row j) ri rj) = Inl e"
    unfolding fancy_index_def by (auto dest!: collect_error)
  then obtain i j where "(case py_get a i of Inl e \<Rightarrow> Inl e | Inr row \<Rightarrow> py_get row j) = Inl e"
    by (auto dest!: collect_error)
  then show ?thesis by (auto split: sum.splits dest: py_get_error)
qed

lemma fancy_index_valid:
  assumes a: "rect H W a" and x: "rect H W indx" and y: "rect H W indy"
    and v: "\<And>r c. r < H \<Longrightarrow> c < W \<Longrightarrow> valid_index H (indx ! r ! c) \<and> valid_index W (indy ! r ! c)"
  shows "fancy_index a indx indy
    = Inr (map2 (map2 (\<lambda>i j. a ! py_pos H i ! py_pos W j)) indx indy)"
proof -
  have row: "collect (map2 (\<lambda>i j. case py_get a i of Inl e \<Rightarrow> Inl e | Inr row \<Rightarrow> py_get row j) ri rj)
      = Inr (map2 (\<lambda>i j. a ! py_pos H i ! py_pos W j) ri rj)"
    if "(ri, rj) \<in> set (zip indx indy)" for ri rj
  proof -
    from that obtain r where r: "r < H" and ri: "ri = indx ! r" and rj: "rj = indy ! r"
      using x y by (auto simp add: set_zip rect_def)
    have "(case py_get a i of Inl e \<Rightarrow> Inl e | Inr row \<Rightarrow> py_get row j)
        = Inr (a ! py_pos H i ! py_pos W j)" if "(i, j) \<in> set (zip ri rj)" for i j
    proof -
      from that obtain c where c: "c < W" and i: "i = ri ! c" and j: "j = rj ! c"
        using x y r ri rj by (auto simp add: set_zip rect_row)
      have vi: "valid_index H i" and vj: "valid_index W j" using v [OF r c] i j ri rj by simp_all
      have "length a = H" using a by (simp add: rect_def)
      with vi have g: "py_get a i = Inr (a ! py_pos H i)" using py_get_valid [of a i] by simp
      have "length (a ! py_pos H i) = W" using a py_pos_less [OF vi] by (rule rect_row)
      with vj have "py_get (a ! py_pos H i) j = Inr (a ! py_pos H i ! py_pos W j)"
        using py_get_valid [of "a ! py_pos H i" j] by simp
      with g show ?thesis by simp
    qed
    then have "collect (map (\<lambda>(i, j). case py_get a i of Inl e \<Rightarrow> Inl e | Inr row \<Rightarrow> py_get row j)
          (zip ri rj))
        = Inr (map (\<lambda>(i, j). a ! py_pos H i ! py_pos W j) (zip ri rj))"
      by (intro collect_all_Inr) auto
    then show ?thesis by simp
  qed
  have "collect (map (\<lambda>(ri, rj). collect (map2
          (\<lambda>i j. case py_get a i of Inl e \<Rightarrow> Inl e | Inr row \<Rightarrow> py_get row j) ri rj))
        (zip indx indy))
      = Inr (map (\<lambda>(ri, rj). map2 (\<lambda>i j. a ! py_pos H i ! py_pos W j) ri rj) (zip indx indy))"
    by (intro collect_all_Inr) (use row in auto)
  then show ?thesis by (simp add: fancy_index_def)
qed

lemma fold_imul_pixel:
  "n \<le> length px \<Longrightarrow>
   fold (\<lambda>i px. px[i := px ! i * k]) [0..<n] px = map (\<lambda>v. v * k) (take n px) @ drop n px"
proof (induction n)
  case 0
  show ?case by simp
next
  case (Suc n)
  then have n: "n < length px" by simp
  define front where "front = map (\<lambda>v. v * k) (take n px)"
  have len: "length front = n" using n by (simp add: front_def)
  have d: "drop n px = px ! n # drop (Suc n) px" using n by (simp add: Cons_nth_drop_Suc)
  have t: "map (\<lambda>v. v * k) (take (Suc n) px) = front @ [px ! n * k]"
    using n by (simp add: take_Suc_conv_app_nth front_def)
  have "fold (\<lambda>i px. px[i := px ! i * k]) [0..<Suc n] px
      = (front @ px ! n # drop (Suc n) px)[n := (front @ px ! n # drop (Suc n) px) ! n * k]"
    using Suc n d by (simp add: front_def)
  also have "\<dots> = front @ (px ! n * k) # drop (Suc n) px"
    using len by (simp add: list_update_append nth_append)
  also have "\<dots> = map (\<lambda>v. v * k) (take (Suc n) px) @ drop (Suc n) px"
    by (simp only: t append_assoc append_Cons append_Nil)
  finally show ?case .
qed

lemma map2_left: "map2 f (map2 g xs ys) ys = map2 (\<lambda>x y. f (g x y) y) xs ys"
  by (induction xs arbitrary: ys) (auto split: list.splits simp add: zip_Cons1)

lemma map2_map2_left:
  "map2 (map2 f) (map2 (map2 g) xss yss) yss = map2 (map2 (\<lambda>x y. f (g x y) y)) xss yss"
proof -
  have "map2 (map2 f) (map2 (map2 g) xss yss) yss
      = map2 (\<lambda>row mrow. map2 f (map2 g row mrow) mrow) xss yss"
    by (rule map2_left)
  then show ?thesis by (simp add: map2_left)
qed

lemma fold_imul_lift:
  "fold (\<lambda>i ev. imul_channel ev i m) js (map2 (map2 h) ev0 m)
   = map2 (map2 (\<lambda>px b. fold (\<lambda>i px. px[i := px ! i * of_bool b]) js (h px b))) ev0 m"
proof (induction js arbitrary: h)
  case Nil
  show ?case by simp
next
  case (Cons j js)
  have "imul_channel (map2 (map2 h) ev0 m) j m
      = map2 (map2 (\<lambda>px b. (h px b)[j := h px b ! j * of_bool b])) ev0 m"
    unfolding imul_channel_def by (rule map2_map2_left)
  then show ?case using Cons.IH [of "\<lambda>px b. (h px b)[j := h px b ! j * of_bool b]"] by simp
qed

lemma imul_loop:
  assumes ev: "rect H W ev" and m: "rect H W m" and u: "uniform C ev"
  shows "fold (\<lambda>i ev. imul_channel ev i m) [0..<shape_last ev] ev
    = map2 (map2 (\<lambda>px b. map (\<lambda>v. v * of_bool b) px)) ev m"
proof -
  have same: "map2 (map2 (\<lambda>px b. px)) ev m = ev"
    using rect_map2 [OF ev m] ev
    by (rule rect_eqI) (simp add: nth_map2_map2 [OF ev m])
  have "fold (\<lambda>i ev. imul_channel ev i m) [0..<shape_last ev] (map2 (map2 (\<lambda>px b. px)) ev m)
      = map2 (map2 (\<lambda>px b. fold (\<lambda>i px. px[i := px ! i * of_bool b]) [0..<shape_last ev] px)) ev m"
    by (rule fold_imul_lift)
  also have "\<dots> = map2 (map2 (\<lambda>px b. map (\<lambda>v. v * of_bool b) px)) ev m"
  proof (rule rect_eqI [OF rect_map2 [OF ev m] rect_map2 [OF ev m]])
    fix r c assume r: "r < H" and c: "c < W"
    have "ev ! r \<in> set ev" using ev r by (simp add: rect_def)
    moreover have "ev ! r ! c \<in> set (ev ! r)" using ev r c by (simp add: rect_row)
    ultimately have "shape_last ev = length (ev ! r ! c)"
      using u shape_last_uniform [of C ev "ev ! r ! c" "ev ! r"] by (simp add: uniform_def)
    then show "map2 (map2 (\<lambda>px b. fold (\<lambda>i px. px[i := px ! i * of_bool b]) [0..<shape_last ev] px)) ev m ! r ! c
        = map2 (map2 (\<lambda>px b. map (\<lambda>v. v * of_bool b) px)) ev m ! r ! c"
      using r c by (simp add: nth_map2_map2 [OF ev m] fold_imul_pixel)
  qed
  finally show ?thesis by (simp only: same)
qed

lemma index_of_less: "index_of xs x = Inr n \<Longrightarrow> n < length xs \<and> xs ! n = x"
proof (induction xs arbitrary: n)
  case Nil
  then show ?case by simp
next
  case (Cons y ys)
  show ?case
  proof (cases "y = x")
    case True
    with Cons.prems show ?thesis by simp
  next
    case False
    with Cons.prems obtain k where "index_of ys x = Inr k" and "n = Suc k"
      by (cases "index_of ys x") auto
    with Cons.IH show ?thesis by simp
  qed
qed

lemma index_of_error: "(index_of xs x = Inl e) = (x \<notin> set xs \<and> e = ValueError)"
proof (induction xs)
  case Nil
  show ?case by auto
next
  case (Cons y ys)
  then show ?case by (cases "index_of ys x") auto
qed

lemma uniform_nth:
  assumes "uniform C a" and "rect H W a" and "r < H" and "c < W"
  shows "length (a ! r ! c) = C"
proof -
  have "a ! r \<in> set a" using assms by (simp add: rect_def)
  moreover have "a ! r ! c \<in> set (a ! r)" using assms by (simp add: rect_row)
  ultimately show ?thesis using assms(1) by (simp add: uniform_def)
qed

lemma uniformI:
  assumes "rect H W a" and "\<And>r c. r < H \<Longrightarrow> c < W \<Longrightarrow> length (a ! r ! c) = C"
  shows "uniform C a"
  unfolding uniform_def
proof (intro ballI)
  fix row px assume "row \<in> set a" and "px \<in> set row"
  then obtain r c where "r < length a" and "row = a ! r" and "c < length row" and "px = row ! c"
    by (auto simp add: in_set_conv_nth)
  then show "length px = C" using assms by (simp add: rect_def)
qed

lemma country_borders_pixels:
  assumes a: "rect H W (maparray g)" and u: "uniform C (maparray g)"
    and ft: "feature_transform edt"
    and i: "index_of (names g) country = Inr n" and p: "n < length (palette g)"
  shows "\<exists>out. country_borders getrgba edt g country = Inr out \<and> rect H W out
    \<and> (\<forall>r c. r < H \<longrightarrow> c < W \<longrightarrow>
      out ! r ! c = map (\<lambda>v. v * of_bool (has_color (getrgba (palette g ! n)) (maparray g ! r ! c)))
        (maparray g ! py_pos H (fst (edt (barrier getrgba g (palette g ! n))) ! r ! c)
                    ! py_pos W (snd (edt (barrier getrgba g (palette g ! n))) ! r ! c)))"
proof -
  define color where "color = palette g ! n"
  define cmask where "cmask = map (map (has_color (getrgba color))) (maparray g)"
  obtain indx indy where e: "edt (barrier getrgba g color) = (indx, indy)"
    by (cases "edt (barrier getrgba g color)")
  define ev where "ev = map2 (map2 (\<lambda>i j. maparray g ! py_pos H i ! py_pos W j)) indx indy"
  have pal: "py_get (palette g) (int n) = Inr color"
    using p by (simp add: py_get_def py_pos_def color_def)
  have cm: "mask_by_color getrgba (maparray g) color = cmask"
    unfolding cmask_def using u by (rule mask_by_color_pointwise)
  have em: "mask_or (mask_or cmask (mask_by_color getrgba (maparray g) (bgcolor g)))
        (mask_by_color getrgba (maparray g) (IGNORECOLOR g)) = barrier getrgba g color"
    by (simp add: cmask_def barrier_def mask_by_color_pointwise [OF u] mask_or_maps disj_assoc)
  have rb: "rect H W (barrier getrgba g color)"
    unfolding barrier_def using a by (rule rect_map)
  have rc: "rect H W cmask" unfolding cmask_def using a by (rule rect_map)
  from ft rb e have rx: "rect H W indx" and ry: "rect H W indy"
    and v: "\<And>r c. r < H \<Longrightarrow> c < W \<Longrightarrow> valid_index H (indx ! r ! c) \<and> valid_index W (indy ! r ! c)"
    unfolding feature_transform_def by fastforce+
  have fi: "fancy_index (maparray g) indx indy = Inr ev"
    unfolding ev_def using a rx ry v by (rule fancy_index_valid)
  have re: "rect H W ev" unfolding ev_def using rx ry by (rule rect_map2)
  have evn: "ev ! r ! c = maparray g ! py_pos H (indx ! r ! c) ! py_pos W (indy ! r ! c)"
    if "r < H" and "c < W" for r c
    unfolding ev_def using that by (simp add: nth_map2_map2 [OF rx ry])
  have ue: "uniform C ev"
  proof (rule uniformI [OF re])
    fix r c assume r: "r < H" and c: "c < W"
    have "py_pos H (indx ! r ! c) < H" and "py_pos W (indy ! r ! c) < W"
      using v [OF r c] by (simp_all add: py_pos_less)
    then show "length (ev ! r ! c) = C" using evn [OF r c] uniform_nth [OF u a] by simp
  qed
  define out where "out = map2 (map2 (\<lambda>px b. map (\<lambda>v. v * of_bool b) px)) ev cmask"
  have loop: "fold (\<lambda>i edtvals. imul_channel edtvals i cmask) [0..<shape_last ev] ev = out"
    unfolding out_def using re rc ue by (rule imul_loop)
  have res: "country_borders getrgba edt g country = Inr out"
    by (simp add: country_borders_def i pal cm em e fi loop Let_def)
  have ro: "rect H W out" unfolding out_def using re rc by (rule rect_map2)
  have "out ! r ! c = map (\<lambda>v. v * of_bool (has_color (getrgba (palette g ! n)) (maparray g ! r ! c)))
        (maparray g ! py_pos H (fst (edt (barrier getrgba g (palette g ! n))) ! r ! c)
                    ! py_pos W (snd (edt (barrier getrgba g (palette g ! n))) ! r ! c))"
    if "r < H" and "c < W" for r c
  proof -
    have "out ! r ! c = map (\<lambda>v. v * of_bool (cmask ! r ! c)) (ev ! r ! c)"
      unfolding out_def using that by (simp add: nth_map2_map2 [OF re rc])
    moreover have "cmask ! r ! c = has_color (getrgba color) (maparray g ! r ! c)"
      unfolding cmask_def using that by (simp add: nth_map_map [OF a])
    ultimately show ?thesis using e evn [OF that] by (simp add: color_def)
  qed
  with res ro show ?thesis by blast
qed

lemma nearest_None: "(nearest p qs = None) = (qs = [])"
  by (induction qs) (auto split: option.splits)

lemma nearest_mem: "nearest p qs = Some q \<Longrightarrow> q \<in> set qs"
  by (induction qs arbitrary: q) (auto split: option.splits if_splits)

lemma nearest_minimal: "nearest p qs = Some q \<Longrightarrow> q' \<in> set qs \<Longrightarrow> sqdist p q \<le> sqdist p q'"
proof (induction qs arbitrary: q q')
  case Nil
  then show ?case by simp
next
  case (Cons x xs)
  show ?case
  proof (cases "nearest p xs")
    case None
    then have "xs = []" by (simp add: nearest_None)
    with Cons.prems None show ?thesis by simp
  next
    case (Some y)
    then have rest: "\<And>z. z \<in> set xs \<Longrightarrow> sqdist p y \<le> sqdist p z" using Cons.IH by blast
    from Cons.prems Some have q: "q = (if sqdist p x \<le> sqdist p y then x else y)" by auto
    from Cons.prems(2) consider "q' = x" | "q' \<in> set xs" by auto
    then show ?thesis
    proof cases
      case 1
      then show ?thesis using q by (simp split: if_splits)
    next
      case 2
      then have "sqdist p y \<le> sqdist p q'" by (rule rest)
      then show ?thesis using q by (simp split: if_splits)
    qed
  qed
qed

lemma set_background:
  "rect H W m \<Longrightarrow> set (background m) = {(r, c). r < H \<and> c < W \<and> \<not> m ! r ! c}"
  by (auto simp add: background_def rect_def)

lemma feature_cases:
  assumes m: "rect H W m" and r: "r < H" and c: "c < W"
  shows "(feature m r c = (-1, 0) \<and> background m = [])
    \<or> (\<exists>r' c'. feature m r c = (int r', int c') \<and> r' < H \<and> c' < W \<and> \<not> m ! r' ! c')"
proof (cases "nearest (r, c) (background m)")
  case None
  then show ?thesis by (simp add: feature_def nearest_None)
next
  case (Some q)
  then have "q \<in> set (background m)" by (rule nearest_mem)
  then have "fst q < H \<and> snd q < W \<and> \<not> m ! fst q ! snd q"
    using set_background [OF m] by auto
  then show ?thesis using Some by (auto simp add: feature_def split: prod.splits)
qed

lemma feature_transform_edt: "feature_transform distance_transform_edt"
  unfolding feature_transform_def
proof (intro allI impI)
  fix H W and m :: mask assume m: "rect H W m"
  define indx where "indx = map (\<lambda>r. map (\<lambda>c. fst (feature m r c)) [0..<length (m ! r)]) [0..<length m]"
  define indy where "indy = map (\<lambda>r. map (\<lambda>c. snd (feature m r c)) [0..<length (m ! r)]) [0..<length m]"
  have e: "distance_transform_edt m = (indx, indy)"
    by (simp add: distance_transform_edt_def indx_def indy_def)
  have rx: "rect H W indx" and ry: "rect H W indy"
    using m by (auto simp add: rect_def indx_def indy_def)
  have nx: "indx ! r ! c = fst (feature m r c)" and ny: "indy ! r ! c = snd (feature m r c)"
    if "r < H" and "c < W" for r c
    using m that by (simp_all add: rect_def indx_def indy_def)
  have "valid_index H (indx ! r ! c) \<and> valid_index W (indy ! r ! c)
        \<and> ((\<exists>r'<H. \<exists>c'<W. \<not> m ! r' ! c') \<longrightarrow>
             0 \<le> indx ! r ! c \<and> 0 \<le> indy ! r ! c \<and> \<not> m ! nat (indx ! r ! c) ! nat (indy ! r ! c))"
    if r: "r < H" and c: "c < W" for r c
  proof -
    from feature_cases [OF m r c] show ?thesis
    proof
      assume f: "feature m r c = (-1, 0) \<and> background m = []"
      then have "set (background m) = {}" by simp
      then have "\<not> (\<exists>r'<H. \<exists>c'<W. \<not> m ! r' ! c')" using set_background [OF m] by auto
      then show ?thesis using f r c by (simp add: nx ny valid_index_def)
    next
      assume "\<exists>r' c'. feature m r c = (int r', int c') \<and> r' < H \<and> c' < W \<and> \<not> m ! r' ! c'"
      then show ?thesis using r c by (auto simp add: nx ny valid_index_def)
    qed
  qed
  then show "case distance_transform_edt m of (indx, indy) \<Rightarrow>
           rect H W indx \<and> rect H W indy
           \<and> (\<forall>r<H. \<forall>c<W.
                 valid_index H (indx ! r ! c) \<and> valid_index W (indy ! r ! c)
                 \<and> ((\<exists>r'<H. \<exists>c'<W. \<not> m ! r' ! c') \<longrightarrow>
                      0 \<le> indx ! r ! c \<and> 0 \<le> indy ! r ! c
                      \<and> \<not> m ! nat (indx ! r ! c) ! nat (indy ! r ! c)))"
    using rx ry by (simp add: e)
qed

lemma pixel_mem: "rect H W a \<Longrightarrow> r < H \<Longrightarrow> c < W \<Longrightarrow> a ! r \<in> set a \<and> a ! r ! c \<in> set (a ! r)"
  by (simp add: rect_def)

lemma pixel_at:
  assumes "rect H W a" and "row \<in> set a" and "px \<in> set row"
  obtains r c where "r < H" and "c < W" and "px = a ! r ! c"
proof -
  from assms obtain r where r: "r < length a" and row: "row = a ! r"
    by (auto simp add: in_set_conv_nth)
  from assms(3) obtain c where c: "c < length row" and px: "px = row ! c"
    by (auto simp add: in_set_conv_nth)
  from assms(1) r have "r < H" and "length row = W" using row by (simp_all add: rect_def)
  with c row px that show thesis by simp
qed

lemma transform_positions:
  assumes ft: "feature_transform edt" and m: "rect H W m" and r: "r < H" and c: "c < W"
  shows "py_pos H (fst (edt m) ! r ! c) < H" and "py_pos W (snd (edt m) ! r ! c) < W"
proof -
  obtain indx indy where e: "edt m = (indx, indy)" by (cases "edt m")
  from ft m e r c have "valid_index H (indx ! r ! c) \<and> valid_index W (indy ! r ! c)"
    unfolding feature_transform_def by fastforce
  then show "py_pos H (fst (edt m) ! r ! c) < H" and "py_pos W (snd (edt m) ! r ! c) < W"
    using e by (simp_all add: py_pos_less)
qed

lemma transform_source:
  assumes ft: "feature_transform edt" and m: "rect H W m" and r: "r < H" and c: "c < W"
    and src: "r' < H" "c' < W" "\<not> m ! r' ! c'"
  shows "\<not> m ! py_pos H (fst (edt m) ! r ! c) ! py_pos W (snd (edt m) ! r ! c)"
proof -
  obtain indx indy where e: "edt m = (indx, indy)" by (cases "edt m")
  from ft m e r c src
  have "0 \<le> indx ! r ! c \<and> 0 \<le> indy ! r ! c \<and> \<not> m ! nat (indx ! r ! c) ! nat (indy ! r ! c)"
    unfolding feature_transform_def by fastforce
  then show ?thesis using e by (simp add: py_pos_def)
qed

lemma barrier_nth:
  "rect H W (maparray g) \<Longrightarrow> r < H \<Longrightarrow> c < W \<Longrightarrow>
   barrier getrgba g color ! r ! c =
     (has_color (getrgba color) (maparray g ! r ! c)
      \<or> has_color (getrgba (bgcolor g)) (maparray g ! r ! c)
      \<or> has_color (getrgba (IGNORECOLOR g)) (maparray g ! r ! c))"
  by (simp add: barrier_def nth_map_map)

lemma rect_barrier: "rect H W (maparray g) \<Longrightarrow> rect H W (barrier getrgba g color)"
  by (simp add: barrier_def rect_map)

lemma empty_mask_zero:
  assumes a: "rect H W (maparray g)" and u: "uniform C (maparray g)"
    and ft: "feature_transform edt"
    and i: "index_of (names g) country = Inr n" and p: "n < length (palette g)"
    and none: "\<forall>row \<in> set (maparray g). \<forall>px \<in> set row. \<not> has_color (getrgba (palette g ! n)) px"
  shows "country_borders getrgba edt g country = Inr (map (map (\<lambda>px. replicate C 0)) (maparray g))"
proof -
  obtain out where res: "country_borders getrgba edt g country = Inr out"
    and ro: "rect H W out"
    and px: "\<And>r c. r < H \<Longrightarrow> c < W \<Longrightarrow>
      out ! r ! c = map (\<lambda>v. v * of_bool (has_color (getrgba (palette g ! n)) (maparray g ! r ! c)))
        (maparray g ! py_pos H (fst (edt (barrier getrgba g (palette g ! n))) ! r ! c)
                    ! py_pos W (snd (edt (barrier getrgba g (palette g ! n))) ! r ! c))"
    using country_borders_pixels [OF a u ft i p, where getrgba = getrgba] by blast
  have "out = map (map (\<lambda>px. replicate C 0)) (maparray g)"
  proof (rule rect_eqI [OF ro rect_map [OF a]])
    fix r c assume r: "r < H" and c: "c < W"
    have "\<not> has_color (getrgba (palette g ! n)) (maparray g ! r ! c)"
      using none pixel_mem [OF a r c] by blast
    moreover have "length (maparray g ! py_pos H (fst (edt (barrier getrgba g (palette g ! n))) ! r ! c)
                    ! py_pos W (snd (edt (barrier getrgba g (palette g ! n))) ! r ! c)) = C"
      using transform_positions [OF ft rect_barrier [OF a] r c] uniform_nth [OF u a] by blast
    ultimately show "out ! r ! c = map (map (\<lambda>px. replicate C 0)) (maparray g) ! r ! c"
      using r c by (simp add: px nth_map_map [OF a] map_replicate_const)
  qed
  with res show ?thesis by simp
qed

lemma two_region_map_shape:
  "rect 2 4 (maparray two_region_map) \<and> uniform 4 (maparray two_region_map)"
  by code_simp

lemma two_region_map_names:
  "index_of (names two_region_map) ''A'' = Inr 0 \<and> 0 < length (palette two_region_map)
   \<and> index_of (names two_region_map) ''B'' = Inr 1 \<and> 1 < length (palette two_region_map)
   \<and> index_of (names two_region_map) ''C'' = Inr 2 \<and> 2 < length (palette two_region_map)"
  by code_simp

lemma two_region_map_A:
  "country_borders id distance_transform_edt two_region_map ''A''
     = Inr [[G, G, Z, Z],
            [G, Z, Z, Z]]"
  by code_simp





lemma two_region_map_other:
  "(\<exists>row \<in> set (maparray two_region_map). \<exists>px \<in> set row.
         \<not> has_color (id (palette two_region_map ! 0)) px
         \<and> \<not> has_color (id (bgcolor two_region_map)) px
         \<and> \<not> has_color (id (IGNORECOLOR two_region_map)) px)
   \<and> \<not> has_color (id (palette two_region_map ! 0)) (replicate 4 0)"
  by code_simp

lemma two_region_map_twice:
  "country_borders id distance_transform_edt
      (two_region_map\<lparr>maparray := [[G, G, Z, Z], [G, Z, Z, Z]]\<rparr>) ''A''
     = Inr [[Z, Z, Z, Z],
            [Z, Z, Z, Z]]"
  by code_simp

lemma fold_heap_update:
  "ref < length h \<Longrightarrow>
   fold (\<lambda>i h. h[ref := f i (h ! ref)]) js h = h[ref := fold f js (h ! ref)]"
  by (induction js arbitrary: h) simp_all

lemma country_borders_heap_value:
  "country_borders_heap getrgba edt g mapref country h =
     (case country_borders getrgba edt (g\<lparr>maparray := h ! mapref\<rparr>) country of
        Inl e \<Rightarrow> (Inl e, h)
      | Inr out \<Rightarrow> (Inr (length h), h @ [out]))"
proof -
  have loop: "fold (\<lambda>i ha. ha[length h := imul_channel (ha ! length h) i m]) js (h @ [x])
      = h @ [fold (\<lambda>i ev. imul_channel ev i m) js x]" for m js x
    using fold_heap_update [of "length h" "h @ [x]" "\<lambda>i ev. imul_channel ev i m" js] by simp
  show ?thesis
    by (simp add: country_borders_heap_def country_borders_def alloc_def Let_def loop
        split: sum.splits prod.splits)
qed

section \<open>The claims about country_borders\<close>

text \<open>
  Claim C1. A raster in which every pixel has the colour of region A, of region B or of the
  background, none the ignore colour, and in which A and B both occur: \<open>country_borders\<close>
  with target A returns a raster of the same shape in which every pixel of A's footprint
  has B's palette colour and every other pixel is zero.
\<close>

theorem country_borders_two_regions:
  "rect H W (maparray g) \<and> uniform C (maparray g) \<and> feature_transform edt
   \<and> index_of (names g) A = Inr n \<and> n < length (palette g)
   \<and> index_of (names g) B = Inr k \<and> k < length (palette g)
   \<and> two_region_raster getrgba g (palette g ! n) (palette g ! k)
   \<longrightarrow> (\<exists>out. country_borders getrgba edt g A = Inr out \<and> rect H W out
         \<and> (\<forall>r<H. \<forall>c<W.
               if has_color (getrgba (palette g ! n)) (maparray g ! r ! c)
               then has_color (getrgba (palette g ! k)) (out ! r ! c) \<and> length (out ! r ! c) = C
               else out ! r ! c = replicate C 0))"
proof (intro impI, elim conjE)
  let ?cA = "palette g ! n" and ?cB = "palette g ! k"
  let ?m = "barrier getrgba g ?cA"
  assume a: "rect H W (maparray g)" and u: "uniform C (maparray g)"
    and ft: "feature_transform edt"
    and i: "index_of (names g) A = Inr n" and p: "n < length (palette g)"
    and two: "two_region_raster getrgba g ?cA ?cB"
  obtain out where res: "country_borders getrgba edt g A = Inr out" and ro: "rect H W out"
    and px: "\<And>r c. r < H \<Longrightarrow> c < W \<Longrightarrow>
      out ! r ! c = map (\<lambda>v. v * of_bool (has_color (getrgba ?cA) (maparray g ! r ! c)))
        (maparray g ! py_pos H (fst (edt ?m) ! r ! c) ! py_pos W (snd (edt ?m) ! r ! c))"
    using country_borders_pixels [OF a u ft i p, where getrgba = getrgba] by blast
  have part: "\<not> has_color (getrgba (IGNORECOLOR g)) q
      \<and> (has_color (getrgba ?cA) q \<and> \<not> has_color (getrgba ?cB) q
            \<and> \<not> has_color (getrgba (bgcolor g)) q
         \<or> \<not> has_color (getrgba ?cA) q \<and> has_color (getrgba ?cB) q
            \<and> \<not> has_color (getrgba (bgcolor g)) q
         \<or> \<not> has_color (getrgba ?cA) q \<and> \<not> has_color (getrgba ?cB) q
            \<and> has_color (getrgba (bgcolor g)) q)"
    if "row \<in> set (maparray g)" and "q \<in> set row" for row q
    using two that unfolding two_region_raster_def by blast
  from two obtain row q where "row \<in> set (maparray g)" and "q \<in> set row"
    and qB: "has_color (getrgba ?cB) q"
    unfolding two_region_raster_def by blast
  then obtain r' c' where r': "r' < H" and c': "c' < W" and q: "q = maparray g ! r' ! c'"
    using pixel_at [OF a] by blast
  have "\<not> ?m ! r' ! c'"
    using part [OF pixel_mem [OF a r' c', THEN conjunct1] pixel_mem [OF a r' c', THEN conjunct2]]
      qB q r' c' by (simp add: barrier_nth [OF a])
  note src = r' c' this
  have "if has_color (getrgba ?cA) (maparray g ! r ! c)
        then has_color (getrgba ?cB) (out ! r ! c) \<and> length (out ! r ! c) = C
        else out ! r ! c = replicate C 0"
    if r: "r < H" and c: "c < W" for r c
  proof -
    let ?i = "py_pos H (fst (edt ?m) ! r ! c)" and ?j = "py_pos W (snd (edt ?m) ! r ! c)"
    have pos: "?i < H" "?j < W" using transform_positions [OF ft rect_barrier [OF a] r c] by blast+
    have "\<not> ?m ! ?i ! ?j" using transform_source [OF ft rect_barrier [OF a] r c src] .
    then have "\<not> has_color (getrgba ?cA) (maparray g ! ?i ! ?j)"
      and "\<not> has_color (getrgba (bgcolor g)) (maparray g ! ?i ! ?j)"
      using pos by (simp_all add: barrier_nth [OF a])
    then have sB: "has_color (getrgba ?cB) (maparray g ! ?i ! ?j)"
      using part [OF pixel_mem [OF a pos, THEN conjunct1] pixel_mem [OF a pos, THEN conjunct2]]
      by blast
    have len: "length (maparray g ! ?i ! ?j) = C" using uniform_nth [OF u a pos] .
    show ?thesis using sB len by (simp add: px [OF r c] map_replicate_const)
  qed
  with res ro show "\<exists>out. country_borders getrgba edt g A = Inr out \<and> rect H W out
         \<and> (\<forall>r<H. \<forall>c<W.
               if has_color (getrgba ?cA) (maparray g ! r ! c)
               then has_color (getrgba ?cB) (out ! r ! c) \<and> length (out ! r ! c) = C
               else out ! r ! c = replicate C 0)"
    by blast
qed

theorem country_borders_two_regions_witness:
  "rect 2 4 (maparray two_region_map) \<and> uniform 4 (maparray two_region_map)
   \<and> feature_transform distance_transform_edt
   \<and> index_of (names two_region_map) ''A'' = Inr 0
   \<and> index_of (names two_region_map) ''B'' = Inr 1
   \<and> two_region_raster id two_region_map (palette two_region_map ! 0) (palette two_region_map ! 1)
   \<and> (\<exists>out. country_borders id distance_transform_edt two_region_map ''A'' = Inr out
         \<and> rect 2 4 out
         \<and> (\<forall>r<2. \<forall>c<4.
               if has_color (id (palette two_region_map ! 0)) (maparray two_region_map ! r ! c)
               then has_color (id (palette two_region_map ! 1)) (out ! r ! c)
                    \<and> length (out ! r ! c) = 4
               else out ! r ! c = replicate 4 0))
   \<and> country_borders id distance_transform_edt two_region_map ''A''
       = Inr [[G, G, Z, Z],
              [G, Z, Z, Z]]"
proof -
  have two: "two_region_raster id two_region_map (palette two_region_map ! 0)
      (palette two_region_map ! 1)"
    by code_simp
  have "\<exists>out. country_borders id distance_transform_edt two_region_map ''A'' = Inr out
         \<and> rect 2 4 out
         \<and> (\<forall>r<2. \<forall>c<4.
               if has_color (id (palette two_region_map ! 0)) (maparray two_region_map ! r ! c)
               then has_color (id (palette two_region_map ! 1)) (out ! r ! c)
                    \<and> length (out ! r ! c) = 4
               else out ! r ! c = replicate 4 0)"
    using country_borders_two_regions [where H = 2 and W = 4 and g = two_region_map and C = 4
        and edt = distance_transform_edt and A = "''A''" and n = 0 and B = "''B''" and k = 1
        and getrgba = id]
      two_region_map_shape two_region_map_names feature_transform_edt two
    by blast
  then show ?thesis
    using two_region_map_shape two_region_map_names feature_transform_edt two two_region_map_A
    by blast
qed




lemma country_borders_ValueError_iff:
  "(country_borders getrgba edt g country = Inl ValueError) = (country \<notin> set (names g))"
proof (cases "index_of (names g) country")
  case (Inl e)
  then have "country \<notin> set (names g)" and "e = ValueError"
    using index_of_error [of "names g" country e] by simp_all
  with Inl show ?thesis by (simp add: country_borders_def)
next
  case (Inr n)
  then have mem: "country \<in> set (names g)" using index_of_less [of "names g" country n] by auto
  have "country_borders getrgba edt g country \<noteq> Inl ValueError"
  proof
    assume v: "country_borders getrgba edt g country = Inl ValueError"
    show False
    proof (cases "py_get (palette g) (int n)")
      case (Inl e)
      then show False using v Inr py_get_error [OF Inl] by (simp add: country_borders_def)
    next
      case color: (Inr color)
      from v Inr color obtain indx indy where
        "fancy_index (maparray g) indx indy = Inl ValueError"
        by (auto simp add: country_borders_def Let_def split: prod.splits sum.splits)
      then show False using fancy_index_error by blast
    qed
  qed
  with mem show ?thesis by simp
qed

lemma names_from_set:
  "(x \<in> set (names_from mapnames aliases bgname))
   = (x \<in> set (map fst mapnames) \<and> x \<notin> set (map fst aliases) \<and> x \<noteq> bgname)"
  by (auto simp add: names_from_def)

lemma small_legend_names:
  "names two_region_map = names_from small_legend MERGE BACKGROUND"
  by code_simp

text \<open>
  Claim C5, as the code has it. The error of a failed name lookup is Python's ValueError,
  raised by \<open>names.index\<close>; the code has no error class of its own. \<open>country_borders\<close>
  raises it if and only if the target is not in \<open>names\<close>, that is, if and only if the
  target is not a name of the legend, or is an alias listed in \<open>MERGE\<close>, or is the
  background name: \<open>country_borders\<close> resolves no alias. This holds whatever the raster and
  the distance transform are: the lookup is the function's first step and nothing retries
  it.
\<close>

theorem country_borders_lookup_error:
  "names g = names_from mapnames aliases bgname \<longrightarrow>
     (country_borders getrgba edt g country = Inl ValueError)
     = (country \<notin> set (map fst mapnames) \<or> country \<in> set (map fst aliases)
        \<or> country = bgname)"
  using country_borders_ValueError_iff [of getrgba edt g country]
    names_from_set [of country mapnames aliases bgname]
  by auto

theorem country_borders_lookup_error_witness:
  "names two_region_map = names_from small_legend MERGE BACKGROUND
   \<and> country_borders id distance_transform_edt two_region_map ''Atlantis'' = Inl ValueError
   \<and> ''Atlantis'' \<notin> set (map fst small_legend)
   \<and> country_borders id distance_transform_edt two_region_map ''Jersey'' = Inl ValueError
   \<and> ''Jersey'' \<in> set (map fst MERGE)
   \<and> country_borders id distance_transform_edt two_region_map ''A'' \<noteq> Inl ValueError
   \<and> ''A'' \<in> set (map fst small_legend) \<and> ''A'' \<notin> set (map fst MERGE) \<and> ''A'' \<noteq> BACKGROUND"
proof -
  have "''Atlantis'' \<notin> set (map fst small_legend)" and "''Jersey'' \<in> set (map fst MERGE)"
    and "''A'' \<in> set (map fst small_legend)" and "''A'' \<notin> set (map fst MERGE)"
    and "''A'' \<noteq> BACKGROUND"
    by code_simp+
  then show ?thesis
    using small_legend_names
      country_borders_lookup_error [of two_region_map small_legend MERGE BACKGROUND id
        distance_transform_edt "''Atlantis''"]
      country_borders_lookup_error [of two_region_map small_legend MERGE BACKGROUND id
        distance_transform_edt "''Jersey''"]
      country_borders_lookup_error [of two_region_map small_legend MERGE BACKGROUND id
        distance_transform_edt "''A''"]
    by blast
qed

text \<open>
  Claim C5 as stated fails: the background name and an alias are names of the legend, and
  \<open>country_borders\<close> raises the lookup error for both.
\<close>

theorem country_borders_legend_counterexample:
  "names two_region_map = names_from small_legend MERGE BACKGROUND
   \<and> ''Sea'' \<in> set (map fst small_legend)
   \<and> country_borders id distance_transform_edt two_region_map ''Sea'' = Inl ValueError
   \<and> ''Gibraltar'' \<in> set (map fst small_legend)
   \<and> country_borders id distance_transform_edt two_region_map ''Gibraltar'' = Inl ValueError"
  by code_simp



text \<open>
  Claim C7, as the code has it. When the raster has a pixel outside the mask of the
  distance transform (a pixel of another region: not the target's colour, not the
  background, not the ignore colour) and the target's colour is not zero,
  \<open>country_borders\<close> applied with the same target to the raster it returned gives the
  all-zero raster.
\<close>

theorem country_borders_twice:
  "rect H W (maparray g) \<and> uniform C (maparray g) \<and> feature_transform edt
   \<and> index_of (names g) A = Inr n \<and> n < length (palette g)
   \<and> (\<exists>row \<in> set (maparray g). \<exists>px \<in> set row.
         \<not> has_color (getrgba (palette g ! n)) px \<and> \<not> has_color (getrgba (bgcolor g)) px
         \<and> \<not> has_color (getrgba (IGNORECOLOR g)) px)
   \<and> \<not> has_color (getrgba (palette g ! n)) (replicate C 0)
   \<longrightarrow> (\<exists>out. country_borders getrgba edt g A = Inr out
         \<and> country_borders getrgba edt (g\<lparr>maparray := out\<rparr>) A
             = Inr (map (map (\<lambda>px. replicate C 0)) out))"
proof (intro impI, elim conjE)
  let ?cA = "palette g ! n"
  let ?m = "barrier getrgba g ?cA"
  assume a: "rect H W (maparray g)" and u: "uniform C (maparray g)"
    and ft: "feature_transform edt"
    and i: "index_of (names g) A = Inr n" and p: "n < length (palette g)"
    and other: "\<exists>row \<in> set (maparray g). \<exists>px \<in> set row.
         \<not> has_color (getrgba ?cA) px \<and> \<not> has_color (getrgba (bgcolor g)) px
         \<and> \<not> has_color (getrgba (IGNORECOLOR g)) px"
    and zA: "\<not> has_color (getrgba ?cA) (replicate C 0)"
  obtain out where res: "country_borders getrgba edt g A = Inr out" and ro: "rect H W out"
    and px: "\<And>r c. r < H \<Longrightarrow> c < W \<Longrightarrow>
      out ! r ! c = map (\<lambda>v. v * of_bool (has_color (getrgba ?cA) (maparray g ! r ! c)))
        (maparray g ! py_pos H (fst (edt ?m) ! r ! c) ! py_pos W (snd (edt ?m) ! r ! c))"
    using country_borders_pixels [OF a u ft i p, where getrgba = getrgba] by blast
  from other obtain row q where "row \<in> set (maparray g)" and "q \<in> set row"
    and q: "\<not> has_color (getrgba ?cA) q" "\<not> has_color (getrgba (bgcolor g)) q"
      "\<not> has_color (getrgba (IGNORECOLOR g)) q"
    by blast
  then obtain r' c' where r': "r' < H" and c': "c' < W" and qq: "q = maparray g ! r' ! c'"
    using pixel_at [OF a] by blast
  have "\<not> ?m ! r' ! c'" using q qq r' c' by (simp add: barrier_nth [OF a])
  note src = r' c' this
  have each: "length (out ! r ! c) = C \<and> \<not> has_color (getrgba ?cA) (out ! r ! c)"
    if r: "r < H" and c: "c < W" for r c
  proof -
    let ?i = "py_pos H (fst (edt ?m) ! r ! c)" and ?j = "py_pos W (snd (edt ?m) ! r ! c)"
    have pos: "?i < H" "?j < W" using transform_positions [OF ft rect_barrier [OF a] r c] by blast+
    have "\<not> ?m ! ?i ! ?j" using transform_source [OF ft rect_barrier [OF a] r c src] .
    then have sA: "\<not> has_color (getrgba ?cA) (maparray g ! ?i ! ?j)"
      using pos by (simp add: barrier_nth [OF a])
    have len: "length (maparray g ! ?i ! ?j) = C" using uniform_nth [OF u a pos] .
    show ?thesis using sA len zA by (simp add: px [OF r c] map_replicate_const)
  qed
  have uo: "uniform C out" by (rule uniformI [OF ro]) (simp add: each)
  have none: "\<forall>row \<in> set out. \<forall>px \<in> set row. \<not> has_color (getrgba ?cA) px"
  proof (intro ballI)
    fix row px assume "row \<in> set out" and "px \<in> set row"
    then obtain r c where "r < H" and "c < W" and "px = out ! r ! c"
      using pixel_at [OF ro] by blast
    then show "\<not> has_color (getrgba ?cA) px" using each by simp
  qed
  have "country_borders getrgba edt (g\<lparr>maparray := out\<rparr>) A
      = Inr (map (map (\<lambda>px. replicate C 0)) (maparray (g\<lparr>maparray := out\<rparr>)))"
    by (rule empty_mask_zero [where H = H and W = W and n = n]) (use ro uo ft i p none in simp_all)
  with res show "\<exists>out. country_borders getrgba edt g A = Inr out
         \<and> country_borders getrgba edt (g\<lparr>maparray := out\<rparr>) A
             = Inr (map (map (\<lambda>px. replicate C 0)) out)"
    by simp
qed

theorem country_borders_twice_witness:
  "rect 2 4 (maparray two_region_map) \<and> uniform 4 (maparray two_region_map)
   \<and> feature_transform distance_transform_edt
   \<and> index_of (names two_region_map) ''A'' = Inr 0 \<and> 0 < length (palette two_region_map)
   \<and> \<not> has_color (id (palette two_region_map ! 0)) (replicate 4 0)
   \<and> (\<exists>out. country_borders id distance_transform_edt two_region_map ''A'' = Inr out
         \<and> country_borders id distance_transform_edt (two_region_map\<lparr>maparray := out\<rparr>) ''A''
             = Inr (map (map (\<lambda>px. replicate 4 0)) out))
   \<and> country_borders id distance_transform_edt
        (two_region_map\<lparr>maparray := [[G, G, Z, Z], [G, Z, Z, Z]]\<rparr>) ''A''
       = Inr [[Z, Z, Z, Z],
              [Z, Z, Z, Z]]"
proof -
  have "\<exists>out. country_borders id distance_transform_edt two_region_map ''A'' = Inr out
         \<and> country_borders id distance_transform_edt (two_region_map\<lparr>maparray := out\<rparr>) ''A''
             = Inr (map (map (\<lambda>px. replicate 4 0)) out)"
    using country_borders_twice [where H = 2 and W = 4 and g = two_region_map and C = 4
        and edt = distance_transform_edt and A = "''A''" and n = 0 and getrgba = id]
      two_region_map_shape two_region_map_names feature_transform_edt two_region_map_other
    by blast
  then show ?thesis
    using two_region_map_shape two_region_map_names feature_transform_edt two_region_map_other
      two_region_map_twice
    by blast
qed

text \<open>
  Claim C7 as stated fails for a raster without another region: on a raster that is all
  region A the function returns its input, and so does the second application.
\<close>

theorem country_borders_twice_counterexample:
  "country_borders id distance_transform_edt solid_map ''A'' = Inr [[R]]
   \<and> country_borders id distance_transform_edt (solid_map\<lparr>maparray := [[R]]\<rparr>) ''A'' = Inr [[R]]
   \<and> country_borders id distance_transform_edt (solid_map\<lparr>maparray := [[R]]\<rparr>) ''A'' \<noteq> Inr [[Z]]"
  by code_simp

text \<open>
  Claim C9. A call of \<open>country_borders\<close> on a heap that holds the input raster leaves every
  array of that heap as it was, the input raster among them; what it writes is one newly
  allocated array, which holds the result the function of values computes from the inputs.
  A second call with the same inputs, made on the heap the first one left, allocates another
  array, with contents identical to the first result, and leaves the first result and the
  input raster unchanged.
\<close>

theorem country_borders_pure:
  "mapref < length h \<longrightarrow>
     (case country_borders_heap getrgba edt g mapref country h of
        (Inl e, h1) \<Rightarrow>
          h1 = h \<and> country_borders getrgba edt (g\<lparr>maparray := h ! mapref\<rparr>) country = Inl e
      | (Inr ref1, h1) \<Rightarrow>
          ref1 = length h \<and> take (length h) h1 = h \<and> h1 ! mapref = h ! mapref
          \<and> country_borders getrgba edt (g\<lparr>maparray := h ! mapref\<rparr>) country = Inr (h1 ! ref1)
          \<and> (case country_borders_heap getrgba edt g mapref country h1 of
                (Inl e, h2) \<Rightarrow> False
              | (Inr ref2, h2) \<Rightarrow>
                  ref2 \<noteq> ref1 \<and> h2 ! ref2 = h2 ! ref1 \<and> h2 ! ref1 = h1 ! ref1
                  \<and> h2 ! mapref = h ! mapref))"
proof
  assume m: "mapref < length h"
  show "case country_borders_heap getrgba edt g mapref country h of
        (Inl e, h1) \<Rightarrow>
          h1 = h \<and> country_borders getrgba edt (g\<lparr>maparray := h ! mapref\<rparr>) country = Inl e
      | (Inr ref1, h1) \<Rightarrow>
          ref1 = length h \<and> take (length h) h1 = h \<and> h1 ! mapref = h ! mapref
          \<and> country_borders getrgba edt (g\<lparr>maparray := h ! mapref\<rparr>) country = Inr (h1 ! ref1)
          \<and> (case country_borders_heap getrgba edt g mapref country h1 of
                (Inl e, h2) \<Rightarrow> False
              | (Inr ref2, h2) \<Rightarrow>
                  ref2 \<noteq> ref1 \<and> h2 ! ref2 = h2 ! ref1 \<and> h2 ! ref1 = h1 ! ref1
                  \<and> h2 ! mapref = h ! mapref)"
  proof (cases "country_borders getrgba edt (g\<lparr>maparray := h ! mapref\<rparr>) country")
    case (Inl e)
    then show ?thesis by (simp add: country_borders_heap_value)
  next
    case (Inr out)
    have same: "(h @ [out]) ! mapref = h ! mapref" using m by (simp add: nth_append)
    show ?thesis
      using m Inr by (simp add: country_borders_heap_value same nth_append)
  qed
qed

theorem country_borders_pure_witness:
  "(0::nat) < length heap0
   \<and> country_borders_heap id distance_transform_edt two_region_map 0 ''A'' heap0
       = (Inr 1, [[[R, R, S, G], [R, S, S, G]],
                  [[G, G, Z, Z], [G, Z, Z, Z]]])
   \<and> country_borders_heap id distance_transform_edt two_region_map 0 ''A''
        [[[R, R, S, G], [R, S, S, G]],
         [[G, G, Z, Z], [G, Z, Z, Z]]]
       = (Inr 2, [[[R, R, S, G], [R, S, S, G]],
                  [[G, G, Z, Z], [G, Z, Z, Z]],
                  [[G, G, Z, Z], [G, Z, Z, Z]]])"
proof -
  have l: "(0::nat) < length heap0" by code_simp
  have v1: "country_borders_heap id distance_transform_edt two_region_map 0 ''A'' heap0
       = (Inr 1, [[[R, R, S, G], [R, S, S, G]],
                  [[G, G, Z, Z], [G, Z, Z, Z]]])"
    by code_simp
  have v2: "country_borders_heap id distance_transform_edt two_region_map 0 ''A''
        [[[R, R, S, G], [R, S, S, G]],
         [[G, G, Z, Z], [G, Z, Z, Z]]]
       = (Inr 2, [[[R, R, S, G], [R, S, S, G]],
                  [[G, G, Z, Z], [G, Z, Z, Z]],
                  [[G, G, Z, Z], [G, Z, Z, Z]]])"
    by code_simp
  show ?thesis
    using country_borders_pure [of 0 heap0 id distance_transform_edt two_region_map "''A''"]
      l v1 v2
    by blast
qed

end
